theory Spec2Isabelle
  imports Main "HOL-Library.Word"
begin

unbundle bit_operations_syntax

section \<open>Values shared by the packages\<close>

type_synonym int64 = "64 word"

type_synonym byte = "8 word"

text \<open>
  Modelled from the spec: the token kinds of the tokenizer, whose file is not among the
  sources (braces, the header, game and rom keywords, the field keywords, quoted strings,
  bare values, end of stream, lexical error). The parser compares kinds with \<open>>\<close> once,
  against \<open>itemValue\<close>: the keywords are the kinds declared after it.
\<close>

datatype itemType =
    itemError | itemEOF | itemOpenBrace | itemCloseBrace | itemQuotedString | itemValue
  | itemClrMamePro | itemGame | itemRom
  | itemName | itemDescription | itemSize | itemCrc | itemMd5 | itemSha1

text \<open>The struct \<open>item\<close>; its field \<open>typ\<close> is \<open>ityp\<close> here.\<close>

datatype item = Item (ityp: itemType) (val: string)

text \<open>
  Go's \<open>error\<close> values. \<open>ExternalError\<close> is an error produced by a collaborator (the
  database, the operating system, the XML decoder, a reader); \<open>EOF\<close> is \<open>io.EOF\<close>;
  \<open>Panic\<close> is a run-time panic, which Go does not return but raises. The others are
  the errors this repository and the libraries \<open>encoding/hex\<close> and \<open>strconv\<close> build:
  \<open>FailedToFlush e\<close> is \<open>fmt.Errorf("failed to flush: %v", e)\<close>, and so on.
\<close>

datatype error =
    ExternalError string
  | EOF
  | Panic string
  | FailedToFlush error
  | ExpectedStringOrValue item
  | ExpectedValue item
  | ExpectedToken itemType item
  | UnexpectedEndOfInput
  | LexerError item
  | InvalidByteError char
  | ErrLength
  | ErrSyntax string
  | ErrRange string
  | ErrorInFile string int error
  | XmlParsingError int error

section \<open>Depot root accounting (archive/depot_root.go)\<close>

text \<open>
  The struct \<open>depotRoot\<close>. The three \<open>int64\<close> fields are 64-bit words read with
  \<open>sint\<close>; Go's \<open>+=\<close> on them wraps around. The bloom filter belongs to an external
  library: its state is the type parameter \<open>'bf\<close> and its \<open>Add\<close> method is passed in as
  \<open>bfAdd\<close>. The embedded mutex is not modelled: each operation below is the critical
  section executed while the lock is held. The field \<open>size\<close> is called \<open>size64\<close> here.
\<close>

record 'bf depotRoot =
  path :: string
  bloomReady :: bool
  bf :: 'bf
  touched :: bool
  size64 :: int64
  maxSize :: int64
  numBfAdded :: int64

text \<open>
  Of the struct \<open>Depot\<close> only the slice \<open>roots\<close> is used. It holds one pointer for each
  shard, each to a struct of its own.
\<close>

record 'bf Depot =
  roots :: "'bf depotRoot list"

text \<open>The body of \<open>adjustSize\<close> on the shard it has selected.\<close>

definition adjustRoot :: "(string \<Rightarrow> 'bf \<Rightarrow> 'bf) \<Rightarrow> 'bf depotRoot \<Rightarrow> int64 \<Rightarrow> string \<Rightarrow> 'bf depotRoot" where
  "adjustRoot bfAdd dr delta sha1Hex =
     (let dr1 = dr\<lparr>size64 := size64 dr + delta\<rparr>;
          dr2 = (if size64 dr1 <s 0 then dr1\<lparr>size64 := 0\<rparr> else dr1);
          dr3 = (if sha1Hex \<noteq> [] \<and> bloomReady dr2 then dr2\<lparr>bf := bfAdd sha1Hex (bf dr2)\<rparr> else dr2)
      in dr3\<lparr>touched := True\<rparr>)"

text \<open>
  \<open>adjustSize\<close>: \<open>depot.roots[index]\<close> panics when the index is out of range, which is
  the result \<open>None\<close>.
\<close>

definition adjustSize :: "(string \<Rightarrow> 'bf \<Rightarrow> 'bf) \<Rightarrow> 'bf Depot \<Rightarrow> int \<Rightarrow> int64 \<Rightarrow> string \<Rightarrow> 'bf Depot option" where
  "adjustSize bfAdd depot index delta sha1Hex =
     (if index < 0 \<or> int (length (roots depot)) \<le> index then None
      else Some (depot\<lparr>roots := (roots depot)[nat index := adjustRoot bfAdd (roots depot ! nat index) delta sha1Hex]\<rparr>))"

section \<open>Refresh pipeline (db/db.go)\<close>

definition MaxBatchSize :: int where
  "MaxBatchSize = 10485760"

text \<open>
  The interface \<open>RomBatch\<close>: the implementation is external, so a batch is a state of
  type \<open>'b\<close> and a record of its methods, each returning the new state.
\<close>

record ('b, 'dat) RomBatch =
  IndexDat :: "'dat \<Rightarrow> byte list \<Rightarrow> 'b \<Rightarrow> error option \<times> 'b"
  Size :: "'b \<Rightarrow> int64"
  Flush :: "'b \<Rightarrow> error option \<times> 'b"
  Close :: "'b \<Rightarrow> error option \<times> 'b"

text \<open>
  The interface \<open>RomDB\<close>, in the same way; \<open>FlushDB\<close> is its method \<open>Flush\<close>. The
  methods that this file never calls are left out.
\<close>

record ('db, 'b) RomDB =
  StartBatch :: "'db \<Rightarrow> 'b \<times> 'db"
  OrphanDats :: "'db \<Rightarrow> error option \<times> 'db"
  FlushDB :: "'db \<Rightarrow> 'db"

text \<open>The calls on the collaborators, in the order in which they are issued.\<close>

datatype event =
    EvOrphanDats
  | EvStartBatch
  | EvFlush
  | EvParse string
  | EvIndexDat string
  | EvClose
  | EvFlushDB

text \<open>\<open>refreshWorker\<close>: \<open>romBatch\<close> is \<open>None\<close> once \<open>Close\<close> has set it to nil.\<close>

record 'b refreshWorker =
  romBatch :: "'b option"

text \<open>
  \<open>refreshWorker.Process\<close>. \<open>parser.Parse\<close> reads the file system and is the parameter
  \<open>Parse\<close>; the parameter \<open>path\<close> is \<open>filePath\<close>. Calling a method of a nil interface
  panics. The result is the returned error, the worker afterwards, and the calls issued;
  the log line and the queries of \<open>Size\<close>, which change nothing, are not among them.
\<close>

definition Process ::
  "('b, 'dat) RomBatch \<Rightarrow> (string \<Rightarrow> error + 'dat \<times> byte list) \<Rightarrow> 'b refreshWorker \<Rightarrow> string \<Rightarrow> int64
     \<Rightarrow> error option \<times> 'b refreshWorker \<times> event list" where
  "Process ops Parse pw filePath fsize =
     (case romBatch pw of
        None \<Rightarrow> (Some (Panic ''nil pointer dereference''), pw, [])
      | Some b \<Rightarrow>
          (let (ferr, b1, ev1) =
                 (if MaxBatchSize \<le> sint (Size ops b)
                  then (let (e, b') = Flush ops b in (e, b', [EvFlush]))
                  else (None, b, []))
           in case ferr of
                Some e \<Rightarrow> (Some (FailedToFlush e), pw\<lparr>romBatch := Some b1\<rparr>, ev1)
              | None \<Rightarrow>
                  (case Parse filePath of
                     Inl e \<Rightarrow> (Some e, pw\<lparr>romBatch := Some b1\<rparr>, ev1 @ [EvParse filePath])
                   | Inr (dat, sha1Bytes) \<Rightarrow>
                       (let (e, b2) = IndexDat ops dat sha1Bytes b1
                        in (e, pw\<lparr>romBatch := Some b2\<rparr>, ev1 @ [EvParse filePath, EvIndexDat filePath])))))"

text \<open>\<open>refreshWorker.Close\<close>.\<close>

definition CloseWorker :: "('b, 'dat) RomBatch \<Rightarrow> 'b refreshWorker \<Rightarrow> error option \<times> 'b refreshWorker \<times> event list" where
  "CloseWorker ops pw =
     (case romBatch pw of
        None \<Rightarrow> (Some (Panic ''nil pointer dereference''), pw, [])
      | Some b \<Rightarrow> (let (e, b') = Close ops b in (e, pw\<lparr>romBatch := None\<rparr>, [EvClose])))"

text \<open>\<open>refreshMaster\<close>; the progress tracker is opaque.\<close>

record ('db, 'b, 'pt) refreshMaster =
  romdb :: "('db, 'b) RomDB"
  numWorkers :: int
  pt :: 'pt

text \<open>
  \<open>Refresh\<close>. \<open>worker.Work\<close> belongs to the scheduling package: it is the parameter \<open>Work\<close>,
  which runs on the database state it is given and returns its report, its error, the
  database state afterwards and the calls it issued, whatever they are.
\<close>

definition Refresh ::
  "(string \<Rightarrow> string list \<Rightarrow> ('db, 'b, 'pt) refreshMaster \<Rightarrow> 'db \<Rightarrow> (string \<times> error option) \<times> 'db \<times> event list)
     \<Rightarrow> ('db, 'b) RomDB \<Rightarrow> string \<Rightarrow> int \<Rightarrow> 'pt \<Rightarrow> 'db
     \<Rightarrow> (string \<times> error option) \<times> 'db \<times> event list" where
  "Refresh Work rdb datsPath nWorkers tracker db =
     (let (err, db1) = OrphanDats rdb db
      in case err of
           Some e \<Rightarrow> (([], Some e), db1, [EvOrphanDats])
         | None \<Rightarrow>
             (let pm = \<lparr>romdb = rdb, numWorkers = nWorkers, pt = tracker\<rparr>;
                  (res, db2, evs) = Work ''refresh dats'' [datsPath] pm db1
              in (res, db2, EvOrphanDats # evs)))"

text \<open>A batch, a parser, a database and a scheduler to run the pipeline on.\<close>

definition exBatch :: "(int64 \<times> nat, unit) RomBatch" where
  "exBatch = \<lparr>IndexDat = (\<lambda>d h (s, n). (None, (s + 100, n))),
              Size = fst,
              Flush = (\<lambda>(s, n). if n < 2 then (None, (0, Suc n)) else (Some (ExternalError ''disk full''), (s, n))),
              Close = (\<lambda>b. (None, b))\<rparr>"

definition exParse :: "string \<Rightarrow> error + unit \<times> byte list" where
  "exParse p = (if p = ''bad.dat'' then Inl (ExternalError ''parse'') else Inr ((), [1, 2]))"

definition exDB :: "(nat \<times> bool, int64 \<times> nat) RomDB" where
  "exDB = \<lparr>StartBatch = (\<lambda>db. ((0, 0), db)),
           OrphanDats = (\<lambda>(k, healthy). if healthy then (None, (0, healthy)) else (Some (ExternalError ''db closed''), (k, healthy))),
           FlushDB = (\<lambda>db. db)\<rparr>"

definition exWork :: "string \<Rightarrow> string list \<Rightarrow> (nat \<times> bool, int64 \<times> nat, unit) refreshMaster \<Rightarrow> nat \<times> bool
    \<Rightarrow> (string \<times> error option) \<times> (nat \<times> bool) \<times> event list" where
  "exWork name paths pm db =
     ((''1 file'', None), (fst db + 1, snd db), [EvStartBatch, EvParse ''a.dat'', EvIndexDat ''a.dat'', EvClose, EvFlushDB])"

section \<open>Depot persistence (archive/depot_root.go)\<close>

text \<open>
  The file system is a map from paths to file contents. The system calls can fail for
  reasons outside the program: \<open>faults\<close> says which of them fail in a run and with
  which error, and for the write also after how many bytes. An error of the operating
  system or of the bloom-filter library is an \<open>ExternalError\<close>.
\<close>

type_synonym filesys = "string \<rightharpoonup> byte list"

record faults =
  existsErr :: "error option"
  renameErr :: "error option"
  createErr :: "error option"
  writeErr :: "(nat \<times> error) option"

text \<open>\<open>filepath.Join\<close> of a directory and a plain file name.\<close>

definition Join :: "string \<Rightarrow> string \<Rightarrow> string" where
  "Join dir name = dir @ ''/'' @ name"

text \<open>\<open>os.Rename\<close>: the new name is replaced, the old one is gone.\<close>

definition Rename :: "filesys \<Rightarrow> string \<Rightarrow> string \<Rightarrow> filesys" where
  "Rename fs oldp newp = (fs(newp := fs oldp))(oldp := None)"

text \<open>
  The states of the file \<open>p\<close> between \<open>os.Create\<close>, which truncates it, and the moment
  \<open>n\<close> bytes of \<open>bs\<close> have been written to it.
\<close>

definition writeStates :: "filesys \<Rightarrow> string \<Rightarrow> byte list \<Rightarrow> nat \<Rightarrow> filesys list" where
  "writeStates fs p bs n = map (\<lambda>k. fs(p \<mapsto> take k bs)) [0..<Suc n]"

text \<open>
  \<open>writeBloomFilterWithBackup\<close>. The two file names are constants of the package
  declared outside this file and are parameters; \<open>ser\<close> is the serialisation that
  \<open>bf.WriteTo\<close> writes; the parameter \<open>bf\<close> is \<open>bfilter\<close>. \<open>PathExists\<close> reports whether
  the path is in the file system, or fails. The result is the returned error and the
  states the file system goes through, the first being the state before the call and the
  last the state the call leaves behind; a crash leaves one of them.
\<close>

definition writeBloomFilterWithBackup ::
  "faults \<Rightarrow> ('bf \<Rightarrow> byte list) \<Rightarrow> string \<Rightarrow> string \<Rightarrow> filesys \<Rightarrow> string \<Rightarrow> 'bf \<Rightarrow> error option \<times> filesys list" where
  "writeBloomFilterWithBackup F ser bloomFilterFilename backupBloomFilterFilename fs root bfilter =
     (let bfFilePath = Join root bloomFilterFilename
      in case existsErr F of
           Some e \<Rightarrow> (Some e, [fs])
         | None \<Rightarrow>
             (let exists = (fs bfFilePath \<noteq> None);
                  backupBfFilePath = Join root backupBloomFilterFilename
              in if exists \<and> renameErr F \<noteq> None then (renameErr F, [fs])
                 else
                   (let tr1 = (if exists then [fs, Rename fs bfFilePath backupBfFilePath] else [fs]);
                        fs1 = last tr1
                    in case createErr F of
                         Some e \<Rightarrow> (Some e, tr1)
                       | None \<Rightarrow>
                           (case writeErr F of
                              Some (k, e) \<Rightarrow>
                                (Some e, tr1 @ writeStates fs1 bfFilePath (ser bfilter) (min k (length (ser bfilter))))
                            | None \<Rightarrow>
                                (None, tr1 @ writeStates fs1 bfFilePath (ser bfilter) (length (ser bfilter)))))))"

text \<open>\<open>writeBloomFilter\<close>, the same without the backup.\<close>

definition writeBloomFilter ::
  "faults \<Rightarrow> ('bf \<Rightarrow> byte list) \<Rightarrow> filesys \<Rightarrow> string \<Rightarrow> 'bf \<Rightarrow> error option \<times> filesys list" where
  "writeBloomFilter F ser fs fpath bfilter =
     (case createErr F of
        Some e \<Rightarrow> (Some e, [fs])
      | None \<Rightarrow>
          (case writeErr F of
             Some (k, e) \<Rightarrow> (Some e, fs # writeStates fs fpath (ser bfilter) (min k (length (ser bfilter))))
           | None \<Rightarrow> (None, fs # writeStates fs fpath (ser bfilter) (length (ser bfilter)))))"

definition noFaults :: faults where
  "noFaults = \<lparr>existsErr = None, renameErr = None, createErr = None, writeErr = None\<rparr>"

definition exFs :: filesys where
  "exFs = [''/depot/bloom'' \<mapsto> [1, 2, 3]]"

section \<open>Library functions used by the parser\<close>

text \<open>
  A Go \<open>string\<close> is a sequence of bytes and is a \<open>string\<close> here; a \<open>[]byte\<close> is a
  \<open>byte list\<close>, and \<open>None\<close> where the slice is nil. The conversions \<open>[]byte(s)\<close> and
  \<open>string(b)\<close> keep the bytes.
\<close>

definition bytesOf :: "string \<Rightarrow> byte list" where
  "bytesOf s = map of_char s"

definition stringOf :: "byte list \<Rightarrow> string" where
  "stringOf bs = map (\<lambda>b. char_of (unat b)) bs"

text \<open>\<open>encoding/hex\<close>: \<open>fromHexChar\<close>.\<close>

definition fromHexChar :: "char \<Rightarrow> byte option" where
  "fromHexChar c =
     (let n = (of_char c :: nat)
      in if 48 \<le> n \<and> n \<le> 57 then Some (of_nat (n - 48))
         else if 97 \<le> n \<and> n \<le> 102 then Some (of_nat (n - 97 + 10))
         else if 65 \<le> n \<and> n \<le> 70 then Some (of_nat (n - 65 + 10))
         else None)"

text \<open>
  \<open>hex.DecodeString\<close>, as documented since Go 1.10: the bytes decoded before the error
  are returned together with the error. A character that is no hexadecimal digit is
  reported before an odd length. The slice returned is never nil.
\<close>

fun DecodeString :: "string \<Rightarrow> byte list \<times> error option" where
  "DecodeString [] = ([], None)"
| "DecodeString [p] =
     (case fromHexChar p of
        None \<Rightarrow> ([], Some (InvalidByteError p))
      | Some a \<Rightarrow> ([], Some ErrLength))"
| "DecodeString (p # q # rest) =
     (case fromHexChar p of
        None \<Rightarrow> ([], Some (InvalidByteError p))
      | Some a \<Rightarrow>
          (case fromHexChar q of
             None \<Rightarrow> ([], Some (InvalidByteError q))
           | Some b \<Rightarrow>
               (let (bs, err) = DecodeString rest
                in ((push_bit 4 a OR b) # bs, err))))"

text \<open>
  \<open>strings.TrimSpace\<close> removes the leading and trailing white space of Unicode. In
  UTF-8 the white-space characters are the six of ASCII and the encodings of U+0085,
  U+00A0, U+1680, U+2000 to U+200A, U+2028, U+2029, U+202F, U+205F and U+3000.
  \<open>spaceWidth s\<close> is the number of bytes of the white-space character at the head of
  \<open>s\<close>, or 0.
\<close>

fun spaceWidth :: "nat list \<Rightarrow> nat" where
  "spaceWidth [] = 0"
| "spaceWidth [a] = (if a = 32 \<or> (9 \<le> a \<and> a \<le> 13) then 1 else 0)"
| "spaceWidth [a, b] =
     (if a = 32 \<or> (9 \<le> a \<and> a \<le> 13) then 1
      else if a = 194 \<and> (b = 133 \<or> b = 160) then 2 else 0)"
| "spaceWidth (a # b # c # rest) =
     (if a = 32 \<or> (9 \<le> a \<and> a \<le> 13) then 1
      else if a = 194 \<and> (b = 133 \<or> b = 160) then 2
      else if a = 225 \<and> b = 154 \<and> c = 128 then 3
      else if a = 226 \<and> b = 128 \<and> ((128 \<le> c \<and> c \<le> 138) \<or> c = 168 \<or> c = 169 \<or> c = 175) then 3
      else if a = 226 \<and> b = 129 \<and> c = 159 then 3
      else if a = 227 \<and> b = 128 \<and> c = 128 then 3
      else 0)"

text \<open>The same for the white-space character at the end of \<open>s\<close>, given reversed.\<close>

fun spaceWidthRev :: "nat list \<Rightarrow> nat" where
  "spaceWidthRev [] = 0"
| "spaceWidthRev [a] = (if a = 32 \<or> (9 \<le> a \<and> a \<le> 13) then 1 else 0)"
| "spaceWidthRev [b, a] =
     (if b = 32 \<or> (9 \<le> b \<and> b \<le> 13) then 1
      else if a = 194 \<and> (b = 133 \<or> b = 160) then 2 else 0)"
| "spaceWidthRev (c # b # a # rest) =
     (if c = 32 \<or> (9 \<le> c \<and> c \<le> 13) then 1
      else if b = 194 \<and> (c = 133 \<or> c = 160) then 2
      else if a = 225 \<and> b = 154 \<and> c = 128 then 3
      else if a = 226 \<and> b = 128 \<and> ((128 \<le> c \<and> c \<le> 138) \<or> c = 168 \<or> c = 169 \<or> c = 175) then 3
      else if a = 226 \<and> b = 129 \<and> c = 159 then 3
      else if a = 227 \<and> b = 128 \<and> c = 128 then 3
      else 0)"

lemma spaceWidth_le: "spaceWidth xs \<le> length xs"
  by (induction xs rule: spaceWidth.induct) auto

lemma spaceWidthRev_le: "spaceWidthRev xs \<le> length xs"
  by (induction xs rule: spaceWidthRev.induct) auto

function trimLeft :: "string \<Rightarrow> string" where
  "trimLeft s =
     (if spaceWidth (map of_char s) = 0 then s else trimLeft (drop (spaceWidth (map of_char s)) s))"
  by pat_completeness auto
termination
proof (relation "measure length")
  show "wf (measure length)" by simp
next
  fix s :: string
  assume "spaceWidth (map of_char s) \<noteq> 0"
  moreover have "spaceWidth (map of_char s) \<le> length s"
    using spaceWidth_le [of "map of_char s"] by simp
  ultimately show "(drop (spaceWidth (map of_char s)) s, s) \<in> measure length"
    by (cases s) auto
qed

declare trimLeft.simps [simp del]

function trimRightRev :: "string \<Rightarrow> string" where
  "trimRightRev s =
     (if spaceWidthRev (map of_char s) = 0 then s else trimRightRev (drop (spaceWidthRev (map of_char s)) s))"
  by pat_completeness auto
termination
proof (relation "measure length")
  show "wf (measure length)" by simp
next
  fix s :: string
  assume "spaceWidthRev (map of_char s) \<noteq> 0"
  moreover have "spaceWidthRev (map of_char s) \<le> length s"
    using spaceWidthRev_le [of "map of_char s"] by simp
  ultimately show "(drop (spaceWidthRev (map of_char s)) s, s) \<in> measure length"
    by (cases s) auto
qed

declare trimRightRev.simps [simp del]

definition TrimSpace :: "string \<Rightarrow> string" where
  "TrimSpace s = rev (trimRightRev (rev (trimLeft s)))"


text \<open>\<open>strings.Repeat\<close>; a negative count panics, and is never passed.\<close>

definition Repeat :: "string \<Rightarrow> int \<Rightarrow> string" where
  "Repeat s count = concat (replicate (nat count) s)"

text \<open>
  \<open>strconv.Atoi\<close>: an optional sign and decimal digits; the value must fit an \<open>int\<close> of
  64 bits. With an error the value returned is 0 or the nearest bound.
\<close>

definition isDigit :: "char \<Rightarrow> bool" where
  "isDigit c = (48 \<le> (of_char c :: nat) \<and> (of_char c :: nat) \<le> 57)"

definition digitsValue :: "string \<Rightarrow> int" where
  "digitsValue ds = foldl (\<lambda>acc c. 10 * acc + (of_char c - 48)) 0 ds"

definition Atoi :: "string \<Rightarrow> int \<times> error option" where
  "Atoi s =
     (let neg = (s \<noteq> [] \<and> hd s = CHR ''-'');
          ds = (if s \<noteq> [] \<and> (hd s = CHR ''-'' \<or> hd s = CHR ''+'') then tl s else s)
      in if ds \<noteq> [] \<and> list_all isDigit ds
         then (if neg \<and> 2 ^ 63 < digitsValue ds then (- (2 ^ 63), Some (ErrRange s))
               else if \<not> neg \<and> 2 ^ 63 \<le> digitsValue ds then (2 ^ 63 - 1, Some (ErrRange s))
               else (if neg then - digitsValue ds else digitsValue ds, None))
         else (0, Some (ErrSyntax s)))"

section \<open>Text parser (package parser): value coercion\<close>

definition stringValue2Int :: "string \<Rightarrow> int \<times> error option" where
  "stringValue2Int input = (if input = ''-'' then (0, None) else Atoi input)"

definition stringValue2Bytes :: "string \<Rightarrow> int \<Rightarrow> byte list option \<times> error option" where
  "stringValue2Bytes input expectedLength =
     (if input = ''-'' \<or> input = [] then (None, None)
      else
        (let input1 = TrimSpace input;
             input2 = (if int (length input1) < expectedLength
                       then Repeat ''0'' (expectedLength - int (length input1)) @ input1
                       else input1);
             (bs, err) = DecodeString input2
         in (Some bs, err)))"

text \<open>
  What the claims about the coercion speak of: the hexadecimal digits, and the bytes
  that a string of hexadecimal digits denotes, two digits a byte, the high one first.
\<close>

definition isHexDigit :: "char \<Rightarrow> bool" where
  "isHexDigit c =
     (let n = (of_char c :: nat)
      in (48 \<le> n \<and> n \<le> 57) \<or> (65 \<le> n \<and> n \<le> 70) \<or> (97 \<le> n \<and> n \<le> 102))"

definition hexDigitValue :: "char \<Rightarrow> nat" where
  "hexDigitValue c =
     (let n = (of_char c :: nat)
      in if n \<le> 57 then n - 48 else if n \<le> 70 then n - 55 else n - 87)"

fun rawBytes :: "string \<Rightarrow> byte list" where
  "rawBytes (p # q # rest) = of_nat (16 * hexDigitValue p + hexDigitValue q) # rawBytes rest"
| "rawBytes s = []"

section \<open>Catalog (package types)\<close>

text \<open>
  Modelled from the spec: the package \<open>types\<close> is not among the sources. A \<open>Rom\<close> has a
  name, a size and three hashes that are nil when absent; a \<open>Game\<close> has a name, a
  description and the four collections of roms that the XML parser walks; a \<open>Dat\<close> has a
  name, a description, its games and its software entries, which have the shape of games.
  Whatever else a \<open>Rom\<close> carries is the extension of the record. The records share field
  names, so the fields of \<open>Game\<close> and \<open>Dat\<close> carry a prefix, and the field \<open>Size\<close>
  of \<open>Rom\<close> is \<open>rSize\<close>, apart from the method \<open>Size\<close> of a batch.
\<close>

record Rom =
  Name :: string
  rSize :: int
  Crc :: "byte list option"
  Md5 :: "byte list option"
  Sha1 :: "byte list option"

record Game =
  gName :: string
  gDescription :: string
  Roms :: "Rom list"
  Disks :: "Rom list"
  Parts :: "Rom list"
  Regions :: "Rom list"

record Dat =
  dName :: string
  dDescription :: string
  Games :: "Game list"
  Software :: "Game list"

definition newRom :: Rom where
  "newRom = \<lparr>Name = [], rSize = 0, Crc = None, Md5 = None, Sha1 = None\<rparr>"

definition newGame :: Game where
  "newGame = \<lparr>gName = [], gDescription = [], Roms = [], Disks = [], Parts = [], Regions = []\<rparr>"

definition newDat :: Dat where
  "newDat = \<lparr>dName = [], dDescription = [], Games = [], Software = []\<rparr>"

section \<open>Text parser (package parser): statements\<close>

text \<open>
  The tokenizer is not among the sources: the parser runs on the list of the items it
  delivers. \<open>nextItem\<close> takes the next one; at the end of the list it answers
  \<open>itemEOF\<close>. Every function returns the items that are left.
\<close>

definition nextItem :: "item list \<Rightarrow> item \<times> item list" where
  "nextItem ts = (case ts of [] \<Rightarrow> (Item itemEOF [], []) | i # rest \<Rightarrow> (i, rest))"

text \<open>\<open>typ > itemValue\<close>.\<close>

definition afterItemValue :: "itemType \<Rightarrow> bool" where
  "afterItemValue t =
     (t \<in> {itemClrMamePro, itemGame, itemRom, itemName, itemDescription, itemSize, itemCrc, itemMd5, itemSha1})"

text \<open>
  \<open>i.val[1 : len(i.val)-1]\<close>, which panics on a value of fewer than two bytes. A panic is
  carried in the place of the error, but it is no error value: it is not caught by a
  test \<open>err != nil\<close>.
\<close>

definition unquote :: "string \<Rightarrow> string + error" where
  "unquote v = (if length v < 2 then Inr (Panic ''slice bounds out of range'') else Inl (take (length v - 2) (drop 1 v)))"

definition isPanic :: "error \<Rightarrow> bool" where
  "isPanic e = (case e of Panic m \<Rightarrow> True | _ \<Rightarrow> False)"

definition consumeStringValue :: "item list \<Rightarrow> (string \<times> error option) \<times> item list" where
  "consumeStringValue ts =
     (let (i, ts1) = nextItem ts
      in if ityp i = itemQuotedString
         then (case unquote (val i) of Inl v \<Rightarrow> ((v, None), ts1) | Inr e \<Rightarrow> (([], Some e), ts1))
         else if ityp i = itemValue then ((val i, None), ts1)
         else if afterItemValue (ityp i) then ((val i, None), ts1)
         else (([], Some (ExpectedStringOrValue i)), ts1))"

definition consumeIntegerValue :: "item list \<Rightarrow> (int \<times> error option) \<times> item list" where
  "consumeIntegerValue ts =
     (let (i, ts1) = nextItem ts
      in if ityp i = itemValue then (stringValue2Int (val i), ts1)
         else if ityp i = itemQuotedString
         then (case unquote (val i) of Inl v \<Rightarrow> (stringValue2Int v, ts1) | Inr e \<Rightarrow> ((0, Some e), ts1))
         else ((0, Some (ExpectedValue i)), ts1))"

definition consumeHexBytes :: "int \<Rightarrow> item list \<Rightarrow> (byte list option \<times> error option) \<times> item list" where
  "consumeHexBytes expectedLength ts =
     (let (i, ts1) = nextItem ts
      in if ityp i = itemValue then (stringValue2Bytes (val i) expectedLength, ts1)
         else if ityp i = itemQuotedString
         then (case unquote (val i) of
                 Inl v \<Rightarrow> (stringValue2Bytes v expectedLength, ts1)
               | Inr e \<Rightarrow> ((None, Some e), ts1))
         else ((None, Some (ExpectedValue i)), ts1))"

definition match :: "item \<Rightarrow> itemType \<Rightarrow> error option" where
  "match i t = (if ityp i = t then None else Some (ExpectedToken t i))"

lemma nextItem_length: "length (snd (nextItem ts)) \<le> length ts"
  by (simp add: nextItem_def split: list.splits)

lemma consumeStringValue_length: "length (snd (consumeStringValue ts)) \<le> length ts"
  using nextItem_length [of ts]
  by (auto simp: consumeStringValue_def split: prod.splits sum.splits)

lemma consumeIntegerValue_length: "length (snd (consumeIntegerValue ts)) \<le> length ts"
  using nextItem_length [of ts]
  by (auto simp: consumeIntegerValue_def split: prod.splits sum.splits)

lemma consumeHexBytes_length: "length (snd (consumeHexBytes n ts)) \<le> length ts"
  using nextItem_length [of ts]
  by (auto simp: consumeHexBytes_def split: prod.splits sum.splits)

lemma shorter_rest: "length (snd p) \<le> n \<Longrightarrow> (res, ts') = p \<Longrightarrow> length ts' < Suc n"
  by auto

text \<open>
  The loop of \<open>romStmt\<close> with the tests that follow it. The first argument is the rom
  under construction. A hash that cannot be coerced ends the statement with a nil rom and
  no error, where it stands.
\<close>

function romLoop :: "Rom \<Rightarrow> item list \<Rightarrow> (Rom option \<times> error option) \<times> item list" where
  "romLoop r [] = ((None, Some UnexpectedEndOfInput), [])"
| "romLoop r (i # ts) =
     (if ityp i = itemCloseBrace then ((Some r, None), ts)
      else if ityp i = itemEOF then ((None, Some UnexpectedEndOfInput), ts)
      else if ityp i = itemError then ((None, Some (LexerError i)), ts)
      else if ityp i = itemName then
        (case consumeStringValue ts of
           ((v, Some e), ts') \<Rightarrow> ((None, Some e), ts')
         | ((v, None), ts') \<Rightarrow> romLoop (r\<lparr>Name := v\<rparr>) ts')
      else if ityp i = itemSize then
        (case consumeIntegerValue ts of
           ((v, Some e), ts') \<Rightarrow> ((None, Some e), ts')
         | ((v, None), ts') \<Rightarrow> romLoop (r\<lparr>rSize := v\<rparr>) ts')
      else if ityp i = itemMd5 then
        (case consumeHexBytes 32 ts of
           ((v, Some e), ts') \<Rightarrow> (if isPanic e then ((None, Some e), ts') else ((None, None), ts'))
         | ((v, None), ts') \<Rightarrow> romLoop (r\<lparr>Md5 := v\<rparr>) ts')
      else if ityp i = itemCrc then
        (case consumeHexBytes 8 ts of
           ((v, Some e), ts') \<Rightarrow> (if isPanic e then ((None, Some e), ts') else ((None, None), ts'))
         | ((v, None), ts') \<Rightarrow> romLoop (r\<lparr>Crc := v\<rparr>) ts')
      else if ityp i = itemSha1 then
        (case consumeHexBytes 40 ts of
           ((v, Some e), ts') \<Rightarrow> (if isPanic e then ((None, Some e), ts') else ((None, None), ts'))
         | ((v, None), ts') \<Rightarrow> romLoop (r\<lparr>Sha1 := v\<rparr>) ts')
      else romLoop r ts)"
  by pat_completeness auto
termination
proof (relation "measure (\<lambda>(r, ts). length ts)", goal_cases)
  case 1
  show ?case by simp
next
  case 2
  then show ?case by (simp add: shorter_rest [OF consumeStringValue_length])
next
  case 3
  then show ?case by (simp add: shorter_rest [OF consumeIntegerValue_length])
next
  case 4
  then show ?case by (simp add: shorter_rest [OF consumeHexBytes_length])
next
  case 5
  then show ?case by (simp add: shorter_rest [OF consumeHexBytes_length])
next
  case 6
  then show ?case by (simp add: shorter_rest [OF consumeHexBytes_length])
next
  case 7
  then show ?case by simp
qed

definition romStmt :: "item list \<Rightarrow> (Rom option \<times> error option) \<times> item list" where
  "romStmt ts =
     (let (i, ts1) = nextItem ts
      in case match i itemOpenBrace of
           Some e \<Rightarrow> ((None, Some e), ts1)
         | None \<Rightarrow> romLoop newRom ts1)"

lemma romLoop_length: "length (snd (romLoop r ts)) \<le> length ts"
proof (induction r ts rule: romLoop.induct)
  case (1 r)
  show ?case by simp
next
  case (2 r i ts)
  have s: "length (snd (consumeStringValue ts)) \<le> length ts" by (rule consumeStringValue_length)
  have n: "length (snd (consumeIntegerValue ts)) \<le> length ts" by (rule consumeIntegerValue_length)
  have h: "length (snd (consumeHexBytes k ts)) \<le> length ts" for k by (rule consumeHexBytes_length)
  consider (stop) "ityp i \<in> {itemCloseBrace, itemEOF, itemError}"
    | (name) "ityp i = itemName" | (size) "ityp i = itemSize" | (md5) "ityp i = itemMd5"
    | (crc) "ityp i = itemCrc" | (sha1) "ityp i = itemSha1"
    | (other) "ityp i \<notin> {itemCloseBrace, itemEOF, itemError, itemName, itemSize, itemMd5, itemCrc, itemSha1}"
    by blast
  then show ?case
  proof cases
    case stop
    then show ?thesis by auto
  next
    case name
    obtain v e ts' where c: "consumeStringValue ts = ((v, e), ts')" by (metis prod.exhaust)
    show ?thesis using name c s "2.IH"(1) [OF _ _ _ name c [symmetric]]
      by (cases e) (force simp: le_Suc_eq)+
  next
    case size
    obtain v e ts' where c: "consumeIntegerValue ts = ((v, e), ts')" by (metis prod.exhaust)
    show ?thesis using size c n "2.IH"(2) [OF _ _ _ _ size c [symmetric]]
      by (cases e) (force simp: le_Suc_eq)+
  next
    case md5
    obtain v e ts' where c: "consumeHexBytes 32 ts = ((v, e), ts')" by (metis prod.exhaust)
    show ?thesis using md5 c h [of 32] "2.IH"(3) [OF _ _ _ _ _ md5 c [symmetric]]
      by (cases e) (force simp: le_Suc_eq)+
  next
    case crc
    obtain v e ts' where c: "consumeHexBytes 8 ts = ((v, e), ts')" by (metis prod.exhaust)
    show ?thesis using crc c h [of 8] "2.IH"(4) [OF _ _ _ _ _ _ crc c [symmetric]]
      by (cases e) (force simp: le_Suc_eq)+
  next
    case sha1
    obtain v e ts' where c: "consumeHexBytes 40 ts = ((v, e), ts')" by (metis prod.exhaust)
    show ?thesis using sha1 c h [of 40] "2.IH"(5) [OF _ _ _ _ _ _ _ sha1 c [symmetric]]
      by (cases e) (force simp: le_Suc_eq)+
  next
    case other
    then show ?thesis using "2.IH"(6) by (auto simp: le_Suc_eq)
  qed
qed

lemma romStmt_length: "length (snd (romStmt ts)) \<le> length ts"
proof (cases ts)
  case Nil
  then show ?thesis by (simp add: romStmt_def nextItem_def match_def)
next
  case (Cons i rest)
  then show ?thesis
    using romLoop_length [of newRom rest]
    by (simp add: romStmt_def nextItem_def split: option.splits)
qed

text \<open>The loop of \<open>gameStmt\<close> with the tests that follow it.\<close>

function gameLoop :: "Game \<Rightarrow> item list \<Rightarrow> (Game option \<times> error option) \<times> item list" where
  "gameLoop g [] = ((None, Some UnexpectedEndOfInput), [])"
| "gameLoop g (i # ts) =
     (if ityp i = itemCloseBrace then ((Some g, None), ts)
      else if ityp i = itemEOF then ((None, Some UnexpectedEndOfInput), ts)
      else if ityp i = itemError then ((None, Some (LexerError i)), ts)
      else if ityp i = itemName then
        (case consumeStringValue ts of
           ((v, Some e), ts') \<Rightarrow> ((None, Some e), ts')
         | ((v, None), ts') \<Rightarrow> gameLoop (g\<lparr>gName := v\<rparr>) ts')
      else if ityp i = itemDescription then
        (case consumeStringValue ts of
           ((v, Some e), ts') \<Rightarrow> ((None, Some e), ts')
         | ((v, None), ts') \<Rightarrow> gameLoop (g\<lparr>gDescription := v\<rparr>) ts')
      else if ityp i = itemRom then
        (case romStmt ts of
           ((r, Some e), ts') \<Rightarrow> ((None, Some e), ts')
         | ((Some r, None), ts') \<Rightarrow> gameLoop (g\<lparr>Roms := Roms g @ [r]\<rparr>) ts'
         | ((None, None), ts') \<Rightarrow> gameLoop g ts')
      else gameLoop g ts)"
  by pat_completeness auto
termination
proof (relation "measure (\<lambda>(g, ts). length ts)", goal_cases)
  case 1
  show ?case by simp
next
  case 2
  then show ?case by (simp add: shorter_rest [OF consumeStringValue_length])
next
  case 3
  then show ?case by (simp add: shorter_rest [OF consumeStringValue_length])
next
  case 4
  then show ?case by (simp add: shorter_rest [OF romStmt_length])
next
  case 5
  then show ?case by (simp add: shorter_rest [OF romStmt_length])
next
  case 6
  then show ?case by simp
qed

definition gameStmt :: "item list \<Rightarrow> (Game option \<times> error option) \<times> item list" where
  "gameStmt ts =
     (let (i, ts1) = nextItem ts
      in case match i itemOpenBrace of
           Some e \<Rightarrow> ((None, Some e), ts1)
         | None \<Rightarrow> gameLoop newGame ts1)"


lemma gameLoop_length: "length (snd (gameLoop g ts)) \<le> length ts"
proof (induction g ts rule: gameLoop.induct)
  case (1 g)
  show ?case by simp
next
  case (2 g i ts)
  have s: "length (snd (consumeStringValue ts)) \<le> length ts" by (rule consumeStringValue_length)
  have n: "length (snd (romStmt ts)) \<le> length ts" by (rule romStmt_length)
  consider (stop) "ityp i \<in> {itemCloseBrace, itemEOF, itemError}"
    | (name) "ityp i = itemName" | (descr) "ityp i = itemDescription" | (rom) "ityp i = itemRom"
    | (other) "ityp i \<notin> {itemCloseBrace, itemEOF, itemError, itemName, itemDescription, itemRom}"
    by blast
  then show ?case
  proof cases
    case stop
    then show ?thesis by auto
  next
    case name
    obtain v e ts' where c: "consumeStringValue ts = ((v, e), ts')" by (metis prod.exhaust)
    show ?thesis using name c s "2.IH"(1) [OF _ _ _ name c [symmetric]]
      by (cases e) (force simp: le_Suc_eq)+
  next
    case descr
    obtain v e ts' where c: "consumeStringValue ts = ((v, e), ts')" by (metis prod.exhaust)
    show ?thesis using descr c s "2.IH"(2) [OF _ _ _ _ descr c [symmetric]]
      by (cases e) (force simp: le_Suc_eq)+
  next
    case rom
    obtain r e ts' where c: "romStmt ts = ((r, e), ts')" by (metis prod.exhaust)
    have len: "length ts' \<le> length ts" using n c by simp
    have unf: "gameLoop g (i # ts) =
        (case e of
           Some x \<Rightarrow> ((None, Some x), ts')
         | None \<Rightarrow> (case r of Some rr \<Rightarrow> gameLoop (g\<lparr>Roms := Roms g @ [rr]\<rparr>) ts' | None \<Rightarrow> gameLoop g ts'))"
      using rom c by (simp split: option.splits)
    show ?thesis
    proof (cases e)
      case (Some x)
      then show ?thesis using len by (simp only: unf option.case snd_conv length_Cons le_SucI)
    next
      case eNone: None
      show ?thesis
      proof (cases r)
        case None
        have "length (snd (gameLoop g ts')) \<le> length ts'"
          using "2.IH"(3,4) [OF _ _ _ _ _ rom c [symmetric]] rom eNone None by simp
        then show ?thesis using len eNone None by (simp add: unf del: gameLoop.simps)
      next
        case (Some rr)
        have "length (snd (gameLoop (g\<lparr>Roms := Roms g @ [rr]\<rparr>) ts')) \<le> length ts'"
          using "2.IH"(3,4) [OF _ _ _ _ _ rom c [symmetric]] rom eNone Some by simp
        then show ?thesis using len eNone Some by (simp add: unf del: gameLoop.simps)
      qed
    qed
  next
    case other
    then show ?thesis using "2.IH"(5) by (auto simp: le_Suc_eq)
  qed
qed

lemma gameStmt_length: "length (snd (gameStmt ts)) \<le> length ts"
proof (cases ts)
  case Nil
  then show ?thesis by (simp add: gameStmt_def nextItem_def match_def)
next
  case (Cons i rest)
  then show ?thesis
    using gameLoop_length [of newGame rest]
    by (simp add: gameStmt_def nextItem_def split: option.splits)
qed

text \<open>
  The loop of \<open>datStmt\<close> with the tests that follow it; the statement writes into the
  catalog of the parser, which is passed along and returned.
\<close>

function datLoop :: "Dat \<Rightarrow> item list \<Rightarrow> (Dat \<times> error option) \<times> item list" where
  "datLoop d [] = ((d, Some UnexpectedEndOfInput), [])"
| "datLoop d (i # ts) =
     (if ityp i = itemCloseBrace then ((d, None), ts)
      else if ityp i = itemEOF then ((d, Some UnexpectedEndOfInput), ts)
      else if ityp i = itemError then ((d, Some (LexerError i)), ts)
      else if ityp i = itemName then
        (case consumeStringValue ts of
           ((v, Some e), ts') \<Rightarrow> ((d\<lparr>dName := v\<rparr>, Some e), ts')
         | ((v, None), ts') \<Rightarrow> datLoop (d\<lparr>dName := v\<rparr>) ts')
      else if ityp i = itemDescription then
        (case consumeStringValue ts of
           ((v, Some e), ts') \<Rightarrow> ((d\<lparr>dDescription := v\<rparr>, Some e), ts')
         | ((v, None), ts') \<Rightarrow> datLoop (d\<lparr>dDescription := v\<rparr>) ts')
      else datLoop d ts)"
  by pat_completeness auto
termination
proof (relation "measure (\<lambda>(d, ts). length ts)", goal_cases)
  case 1
  show ?case by simp
next
  case 2
  then show ?case by (simp add: shorter_rest [OF consumeStringValue_length])
next
  case 3
  then show ?case by (simp add: shorter_rest [OF consumeStringValue_length])
next
  case 4
  then show ?case by simp
qed

definition datStmt :: "Dat \<Rightarrow> item list \<Rightarrow> (Dat \<times> error option) \<times> item list" where
  "datStmt d ts =
     (let (i, ts1) = nextItem ts
      in case match i itemOpenBrace of
           Some e \<Rightarrow> ((d, Some e), ts1)
         | None \<Rightarrow> datLoop d ts1)"

lemma datLoop_length: "length (snd (datLoop d ts)) \<le> length ts"
proof (induction d ts rule: datLoop.induct)
  case (1 d)
  show ?case by simp
next
  case (2 d i ts)
  have s: "length (snd (consumeStringValue ts)) \<le> length ts" by (rule consumeStringValue_length)
  consider (stop) "ityp i \<in> {itemCloseBrace, itemEOF, itemError}"
    | (name) "ityp i = itemName" | (descr) "ityp i = itemDescription"
    | (other) "ityp i \<notin> {itemCloseBrace, itemEOF, itemError, itemName, itemDescription}"
    by blast
  then show ?case
  proof cases
    case stop
    then show ?thesis by auto
  next
    case name
    obtain v e ts' where c: "consumeStringValue ts = ((v, e), ts')" by (metis prod.exhaust)
    show ?thesis using name c s "2.IH"(1) [OF _ _ _ name c [symmetric]]
      by (cases e) (force simp: le_Suc_eq)+
  next
    case descr
    obtain v e ts' where c: "consumeStringValue ts = ((v, e), ts')" by (metis prod.exhaust)
    show ?thesis using descr c s "2.IH"(2) [OF _ _ _ _ descr c [symmetric]]
      by (cases e) (force simp: le_Suc_eq)+
  next
    case other
    then show ?thesis using "2.IH"(3) by (auto simp: le_Suc_eq)
  qed
qed

lemma datStmt_length: "length (snd (datStmt d ts)) \<le> length ts"
proof (cases ts)
  case Nil
  then show ?thesis by (simp add: datStmt_def nextItem_def match_def)
next
  case (Cons i rest)
  then show ?thesis
    using datLoop_length [of d rest]
    by (simp add: datStmt_def nextItem_def split: option.splits)
qed

text \<open>
  \<open>parse\<close>: the loop over the top-level statements. The result is the catalog of the
  parser and the returned error.
\<close>

function parse :: "Dat \<Rightarrow> item list \<Rightarrow> Dat \<times> error option" where
  "parse d [] = (d, None)"
| "parse d (i # ts) =
     (if ityp i = itemEOF then (d, None)
      else if ityp i = itemError then (d, Some (LexerError i))
      else if ityp i = itemClrMamePro then
        (case datStmt d ts of
           ((d', Some e), ts') \<Rightarrow> (d', Some e)
         | ((d', None), ts') \<Rightarrow> parse d' ts')
      else if ityp i = itemGame then
        (case gameStmt ts of
           ((g, Some e), ts') \<Rightarrow> (d, Some e)
         | ((Some g, None), ts') \<Rightarrow> parse (d\<lparr>Games := Games d @ [g]\<rparr>) ts'
         | ((None, None), ts') \<Rightarrow> parse d ts')
      else parse d ts)"
  by pat_completeness auto
termination
proof (relation "measure (\<lambda>(d, ts). length ts)", goal_cases)
  case 1
  show ?case by simp
next
  case 2
  then show ?case by (simp add: shorter_rest [OF datStmt_length])
next
  case 3
  then show ?case by (simp add: shorter_rest [OF gameStmt_length])
next
  case 4
  then show ?case by (simp add: shorter_rest [OF gameStmt_length])
next
  case 5
  then show ?case by simp
qed


section \<open>Readers (package parser)\<close>

text \<open>
  An \<open>io.Reader\<close> is a state and its method \<open>Read\<close>: called with a buffer of \<open>n\<close> bytes it
  returns the bytes it has put into the buffer (\<open>buf[:n]\<close> for the count it returns), the
  error, and its next state. A reader may deliver bytes together with \<open>io.EOF\<close>.
\<close>

type_synonym 's Read = "'s \<Rightarrow> nat \<Rightarrow> (byte list \<times> error option) \<times> 's"

text \<open>
  \<open>hashingReader\<close>. Both fields are interfaces, so the copy that the value receiver makes
  shares the reader and the hash with the caller: \<open>ir\<close> is the state of the reader
  behind it, \<open>h\<close> the state of the hash, which is the bytes written to it so far
  (\<open>sha1.New()\<close> starts empty, \<open>Sum(nil)\<close> is the SHA-1 of them).
\<close>

record 's hashingReader =
  ir :: 's
  h :: "byte list"

definition hashingReaderRead :: "'s Read \<Rightarrow> 's hashingReader \<Rightarrow> nat \<Rightarrow> (byte list \<times> error option) \<times> 's hashingReader" where
  "hashingReaderRead rd r n =
     (let ((buf, err), s) = rd (ir r) n
      in ((buf, err), r\<lparr>ir := s, h := (if err = None then h r @ buf else h r)\<rparr>))"

text \<open>
  \<open>lineCountingReader\<close>: \<open>lir\<close> is its field \<open>ir\<close>, \<open>line\<close> is an \<open>int\<close> held in the
  struct itself. \<open>Read\<close> has a value receiver: it runs on a copy \<open>r\<close> of the struct of
  the caller, increments \<open>line\<close> of the copy, and the copy is gone when it returns. What
  the caller has afterwards is its own struct, in which only the reader behind the
  interface has moved on.
\<close>

record 's lineCountingReader =
  lir :: 's
  line :: int

definition lineCountingReaderRead ::
  "'s Read \<Rightarrow> 's lineCountingReader \<Rightarrow> nat \<Rightarrow> (byte list \<times> error option) \<times> 's lineCountingReader" where
  "lineCountingReaderRead rd caller n =
     (let r = caller;
          ((buf, err), s) = rd (lir r) n;
          r = (if err = None then r\<lparr>line := line r + int (length (filter (\<lambda>b. b = 10) buf))\<rparr> else r)
      in ((buf, err), caller\<lparr>lir := s\<rparr>))"

text \<open>
  The consumer of a stream (the tokenizer, the XML decoder) is not among the sources. It
  calls \<open>Read\<close> with buffers of the sizes \<open>ns\<close>, one after the other, until a call
  returns an error or it stops asking. The result is all the bytes delivered, the error
  of the last call, and the reader afterwards.
\<close>

fun readUntilError :: "('r \<Rightarrow> nat \<Rightarrow> (byte list \<times> error option) \<times> 'r) \<Rightarrow> nat list \<Rightarrow> 'r \<Rightarrow> (byte list \<times> error option) \<times> 'r" where
  "readUntilError rd [] r = (([], None), r)"
| "readUntilError rd (n # ns) r =
     (let ((buf, err), r1) = rd r n
      in case err of
           Some e \<Rightarrow> ((buf, Some e), r1)
         | None \<Rightarrow> (let ((rest, err'), r2) = readUntilError rd ns r1 in ((buf @ rest, err'), r2)))"

section \<open>The two parsers (package parser)\<close>

text \<open>
  \<open>ParseDat\<close>. Parameters for what is outside the sources: \<open>sha1sum\<close> is SHA-1; \<open>lexer\<close>
  is the tokenizer, from the bytes delivered and the error that ended the stream to the
  items; \<open>lineNumber\<close> is its line count; \<open>Normalize\<close> is the method of \<open>Dat\<close>; \<open>rd\<close>
  and \<open>r0\<close> are the reader passed in. The tokenizer reads until the stream returns an
  error: the result is \<open>None\<close> when it is still reading after the reads \<open>ns\<close>. It reads
  ahead of the parser; here it reads to the end first, which changes nothing that
  \<open>ParseDat\<close> returns. The parameter \<open>path\<close> is \<open>fpath\<close>. A panic is not wrapped.
\<close>

definition ParseDat ::
  "(byte list \<Rightarrow> byte list) \<Rightarrow> (byte list \<times> error option \<Rightarrow> item list) \<Rightarrow> (byte list \<times> error option \<Rightarrow> int)
     \<Rightarrow> (Dat \<Rightarrow> Dat) \<Rightarrow> 's Read \<Rightarrow> nat list \<Rightarrow> 's \<Rightarrow> string
     \<Rightarrow> (Dat option \<times> byte list option \<times> error option) option" where
  "ParseDat sha1sum lexer lineNumber Normalize rd ns r0 fpath =
     (let hr = \<lparr>ir = r0, h = []\<rparr>;
          (got, hr1) = readUntilError (hashingReaderRead rd) ns hr
      in if snd got = None then None
         else
           (let (d, err) = parse newDat (lexer got)
            in case err of
                 Some e \<Rightarrow>
                   Some (None, None, Some (if isPanic e then e else ErrorInFile fpath (lineNumber got) e))
               | None \<Rightarrow> Some (Some (Normalize d), Some (sha1sum (h hr1)), None)))"

text \<open>
  \<open>fixHashes\<close>, on a rom with any further fields. A hash arrives from the XML decoder
  as the bytes of its hexadecimal text. After a failed decoding the field is set to nil
  and then, like after a successful one, to the slice that \<open>DecodeString\<close> has returned.
\<close>

definition fixHashes :: "'a Rom_scheme \<Rightarrow> 'a Rom_scheme" where
  "fixHashes rom =
     (let rom1 = (case Crc rom of
                    None \<Rightarrow> rom
                  | Some c \<Rightarrow>
                      (let (v, err) = DecodeString (stringOf c);
                           rom' = (if err \<noteq> None then rom\<lparr>Crc := None\<rparr> else rom)
                       in rom'\<lparr>Crc := Some v\<rparr>));
          rom2 = (case Md5 rom1 of
                    None \<Rightarrow> rom1
                  | Some c \<Rightarrow>
                      (let (v, err) = DecodeString (stringOf c);
                           rom' = (if err \<noteq> None then rom1\<lparr>Md5 := None\<rparr> else rom1)
                       in rom'\<lparr>Md5 := Some v\<rparr>));
          rom3 = (case Sha1 rom2 of
                    None \<Rightarrow> rom2
                  | Some c \<Rightarrow>
                      (let (v, err) = DecodeString (stringOf c);
                           rom' = (if err \<noteq> None then rom2\<lparr>Sha1 := None\<rparr> else rom2)
                       in rom'\<lparr>Sha1 := Some v\<rparr>))
      in rom3)"

text \<open>The four loops that \<open>ParseXml\<close> runs over a game or a software entry.\<close>

definition fixGame :: "Game \<Rightarrow> Game" where
  "fixGame g =
     g\<lparr>Roms := map fixHashes (Roms g), Disks := map fixHashes (Disks g),
       Parts := map fixHashes (Parts g), Regions := map fixHashes (Regions g)\<rparr>"

text \<open>
  \<open>ParseXml\<close>. \<open>xmlDecode\<close> is \<open>decoder.Decode\<close> of \<open>encoding/xml\<close>, from what the
  decoder has read to the catalog or its error; \<open>rd\<close> and \<open>r0\<close> are the buffered reader
  \<open>br\<close> around the reader passed in; the parameter \<open>path\<close> is not used by the function.
  The line of the error message is read from the struct \<open>lr\<close> of \<open>ParseXml\<close>.
\<close>

definition ParseXml ::
  "(byte list \<Rightarrow> byte list) \<Rightarrow> (byte list \<times> error option \<Rightarrow> error + Dat) \<Rightarrow> (Dat \<Rightarrow> Dat)
     \<Rightarrow> 's Read \<Rightarrow> nat list \<Rightarrow> 's \<Rightarrow> Dat option \<times> byte list option \<times> error option" where
  "ParseXml sha1sum xmlDecode Normalize rd ns r0 =
     (let hr = \<lparr>ir = r0, h = []\<rparr>;
          lr = \<lparr>lir = hr, line = 0\<rparr>;
          (got, lr1) = readUntilError (lineCountingReaderRead (hashingReaderRead rd)) ns lr
      in case xmlDecode got of
           Inl e \<Rightarrow> (None, None, Some (XmlParsingError (line lr1) e))
         | Inr d \<Rightarrow>
             (let d1 = d\<lparr>Games := map fixGame (Games d), Software := map fixGame (Software d)\<rparr>
              in (Some (Normalize d1), Some (sha1sum (h (lir lr1))), None)))"

text \<open>
  Two readers to run the parsers on: \<open>sliceReader\<close> hands out its bytes and then
  answers \<open>io.EOF\<close> with no bytes, as \<open>bytes.Reader\<close> does; \<open>dataErrReader\<close> answers
  \<open>io.EOF\<close> together with its last bytes, as \<open>iotest.DataErrReader\<close> does.
\<close>

definition sliceReader :: "byte list Read" where
  "sliceReader s n = (if s = [] then (([], Some EOF), []) else ((take n s, None), drop n s))"

definition dataErrReader :: "byte list Read" where
  "dataErrReader s n = (if length s \<le> n then ((s, Some EOF), []) else ((take n s, None), drop n s))"

text \<open>A rom as the XML decoder leaves it, the items of a rom statement, and of a game.\<close>

definition exRom :: "string \<Rightarrow> Rom" where
  "exRom sha1Text = \<lparr>Name = ''r'', rSize = 1, Crc = Some (bytesOf ''1a2b3c4d''), Md5 = None, Sha1 = Some (bytesOf sha1Text)\<rparr>"

definition exRomItems :: "item list" where
  "exRomItems = [Item itemOpenBrace ''('', Item itemName ''name'', Item itemValue ''r'',
     Item itemSha1 ''sha1'', Item itemValue ''1azz'', Item itemCloseBrace '')'']"

definition exGameItems :: "item list" where
  "exGameItems = [Item itemGame ''game'', Item itemOpenBrace ''('', Item itemName ''name'', Item itemValue ''x'',
     Item itemCloseBrace '')'', Item itemEOF []]"

section \<open>Properties of the depot root accounting\<close>

lemma adjustRoot_size:
  "sint (size64 (adjustRoot bfAdd dr delta s)) = max 0 (sint (size64 dr + delta))"
  by (simp add: adjustRoot_def Let_def word_sless_alt max_def)

lemma adjustRoot_touched: "touched (adjustRoot bfAdd dr delta s)"
  by (simp add: adjustRoot_def Let_def)

lemma sint_add_no_overflow:
  fixes a b :: int64
  assumes "- (2 ^ 63) \<le> sint a + sint b" and "sint a + sint b < 2 ^ 63"
  shows "sint (a + b) = sint a + sint b"
  using assms by (simp add: sint_word_ariths signed_take_bit_int_eq_self)

lemma adjustSize_Some:
  "0 \<le> index \<Longrightarrow> index < int (length (roots d)) \<Longrightarrow>
   adjustSize bfAdd d index delta s =
     Some (d\<lparr>roots := (roots d)[nat index := adjustRoot bfAdd (roots d ! nat index) delta s]\<rparr>)"
  by (simp add: adjustSize_def)

text \<open>
  C2. For every valid shard index, every delta and every content id, \<open>adjustSize\<close>
  returns, and afterwards the size of the shard is \<open>max 0 (oldSize + delta)\<close>, the sum being
  Go's \<open>int64\<close> addition; it is never negative; the dirty flag is set. Whenever the
  mathematical sum fits into an \<open>int64\<close>, the size is the maximum of 0 and that sum.
\<close>

theorem adjustSize_clamps:
  assumes "0 \<le> index" and "index < int (length (roots d))"
  shows "\<exists>d'. adjustSize bfAdd d index delta sha1Hex = Some d' \<and>
           length (roots d') = length (roots d) \<and>
           sint (size64 (roots d' ! nat index)) = max 0 (sint (size64 (roots d ! nat index) + delta)) \<and>
           0 \<le> sint (size64 (roots d' ! nat index)) \<and>
           touched (roots d' ! nat index) \<and>
           (- (2 ^ 63) \<le> sint (size64 (roots d ! nat index)) + sint delta \<and>
            sint (size64 (roots d ! nat index)) + sint delta < 2 ^ 63 \<longrightarrow>
              sint (size64 (roots d' ! nat index)) = max 0 (sint (size64 (roots d ! nat index)) + sint delta))"
proof -
  let ?old = "roots d ! nat index"
  let ?new = "adjustRoot bfAdd ?old delta sha1Hex"
  let ?d' = "d\<lparr>roots := (roots d)[nat index := ?new]\<rparr>"
  from assms have lt: "nat index < length (roots d)" by simp
  have run: "adjustSize bfAdd d index delta sha1Hex = Some ?d'"
    using assms by (rule adjustSize_Some)
  have at: "roots ?d' ! nat index = ?new" using lt by simp
  have sz: "sint (size64 ?new) = max 0 (sint (size64 ?old + delta))"
    by (rule adjustRoot_size)
  have nonneg: "0 \<le> sint (size64 ?new)" unfolding sz by simp
  have exact: "- (2 ^ 63) \<le> sint (size64 ?old) + sint delta \<and> sint (size64 ?old) + sint delta < 2 ^ 63 \<longrightarrow>
                 sint (size64 ?new) = max 0 (sint (size64 ?old) + sint delta)"
    unfolding sz by (simp add: sint_add_no_overflow)
  show ?thesis
  proof (intro exI conjI)
    show "adjustSize bfAdd d index delta sha1Hex = Some ?d'" by (rule run)
    show "length (roots ?d') = length (roots d)" by simp
    show "sint (size64 (roots ?d' ! nat index)) = max 0 (sint (size64 ?old + delta))"
      unfolding at by (rule sz)
    show "0 \<le> sint (size64 (roots ?d' ! nat index))"
      unfolding at by (rule nonneg)
    show "touched (roots ?d' ! nat index)"
      unfolding at by (rule adjustRoot_touched)
    show "- (2 ^ 63) \<le> sint (size64 ?old) + sint delta \<and> sint (size64 ?old) + sint delta < 2 ^ 63 \<longrightarrow>
            sint (size64 (roots ?d' ! nat index)) = max 0 (sint (size64 ?old) + sint delta)"
      unfolding at by (rule exact)
  qed
qed

theorem adjustSize_clamps_witness:
  "\<exists>d'. adjustSize (#)
           \<lparr>roots = [\<lparr>path = ''r0'', bloomReady = True, bf = [], touched = False,
                      size64 = 5, maxSize = 100, numBfAdded = 0\<rparr>]\<rparr> 0 (- 7) ''ab'' = Some d' \<and>
         sint (size64 (roots d' ! 0)) = 0 \<and> touched (roots d' ! 0)"
  using adjustSize_clamps [of 0
      "\<lparr>roots = [\<lparr>path = ''r0'', bloomReady = True, bf = [], touched = False,
                  size64 = 5, maxSize = 100, numBfAdded = 0\<rparr>]\<rparr>" "(#)" "- 7" "''ab''"]
  by auto

lemma adjustRoot_empty_id:
  "adjustRoot bfAdd dr delta [] = (adjustRoot bfAdd dr delta s)\<lparr>bf := bf dr\<rparr>"
  by (simp add: adjustRoot_def Let_def)

lemma adjustRoot_empty_bf: "bf (adjustRoot bfAdd dr delta []) = bf dr"
  by (simp add: adjustRoot_def Let_def)

text \<open>
  C10. For every valid shard index and every delta, \<open>adjustSize\<close> with the empty content
  id leaves the bloom filter of every shard as it was, also when the filter is ready;
  the shard it returns is the one the same call with any other content id returns, with
  the old bloom filter put back, so size and dirty flag are those of that call: the
  clamped size, and the flag set.
\<close>

theorem adjustSize_empty_id_frame:
  assumes "0 \<le> index" and "index < int (length (roots d))"
  shows "\<exists>d0 d1. adjustSize bfAdd d index delta [] = Some d0 \<and>
           adjustSize bfAdd d index delta sha1Hex = Some d1 \<and>
           map bf (roots d0) = map bf (roots d) \<and>
           roots d0 ! nat index = (roots d1 ! nat index)\<lparr>bf := bf (roots d ! nat index)\<rparr> \<and>
           size64 (roots d0 ! nat index) = size64 (roots d1 ! nat index) \<and>
           sint (size64 (roots d0 ! nat index)) = max 0 (sint (size64 (roots d ! nat index) + delta)) \<and>
           touched (roots d0 ! nat index) \<and> touched (roots d1 ! nat index)"
proof -
  let ?old = "roots d ! nat index"
  let ?n0 = "adjustRoot bfAdd ?old delta []"
  let ?n1 = "adjustRoot bfAdd ?old delta sha1Hex"
  let ?d0 = "d\<lparr>roots := (roots d)[nat index := ?n0]\<rparr>"
  let ?d1 = "d\<lparr>roots := (roots d)[nat index := ?n1]\<rparr>"
  from assms have lt: "nat index < length (roots d)" by simp
  have at0: "roots ?d0 ! nat index = ?n0" and at1: "roots ?d1 ! nat index = ?n1"
    using lt by simp_all
  have eq: "?n0 = ?n1\<lparr>bf := bf ?old\<rparr>" by (rule adjustRoot_empty_id)
  have bfs: "map bf (roots ?d0) = map bf (roots d)"
  proof (rule nth_equalityI)
    show "length (map bf (roots ?d0)) = length (map bf (roots d))" by simp
  next
    fix i assume "i < length (map bf (roots ?d0))"
    then have i: "i < length (roots d)" by simp
    show "map bf (roots ?d0) ! i = map bf (roots d) ! i"
    proof (cases "i = nat index")
      case True
      then show ?thesis using lt by (simp add: adjustRoot_empty_bf)
    next
      case False
      then show ?thesis using i by simp
    qed
  qed
  show ?thesis
  proof (intro exI conjI)
    show "adjustSize bfAdd d index delta [] = Some ?d0" using assms by (rule adjustSize_Some)
    show "adjustSize bfAdd d index delta sha1Hex = Some ?d1" using assms by (rule adjustSize_Some)
    show "map bf (roots ?d0) = map bf (roots d)" by (rule bfs)
    show "roots ?d0 ! nat index = (roots ?d1 ! nat index)\<lparr>bf := bf ?old\<rparr>"
      unfolding at0 at1 by (rule eq)
    show "size64 (roots ?d0 ! nat index) = size64 (roots ?d1 ! nat index)"
      unfolding at0 at1 by (simp add: eq)
    show "sint (size64 (roots ?d0 ! nat index)) = max 0 (sint (size64 ?old + delta))"
      unfolding at0 by (rule adjustRoot_size)
    show "touched (roots ?d0 ! nat index)" unfolding at0 by (rule adjustRoot_touched)
    show "touched (roots ?d1 ! nat index)" unfolding at1 by (rule adjustRoot_touched)
  qed
qed

theorem adjustSize_empty_id_frame_witness:
  "\<exists>d0. adjustSize (#)
           \<lparr>roots = [\<lparr>path = ''r0'', bloomReady = True, bf = [''cafe''], touched = False,
                      size64 = 5, maxSize = 100, numBfAdded = 0\<rparr>]\<rparr> 0 3 [] = Some d0 \<and>
         map bf (roots d0) = [[''cafe'']] \<and>
         sint (size64 (roots d0 ! 0)) = 8 \<and> touched (roots d0 ! 0)"
  using adjustSize_empty_id_frame [of 0
      "\<lparr>roots = [\<lparr>path = ''r0'', bloomReady = True, bf = [''cafe''], touched = False,
                  size64 = 5, maxSize = 100, numBfAdded = 0\<rparr>]\<rparr>" "(#)" 3 "''x''"]
  by auto

section \<open>Properties of the refresh pipeline\<close>

lemma Process_below:
  assumes "romBatch pw = Some b" and "sint (Size ops b) < MaxBatchSize"
  shows "Process ops Parse pw filePath fsize =
     (case Parse filePath of
        Inl e \<Rightarrow> (Some e, pw\<lparr>romBatch := Some b\<rparr>, [EvParse filePath])
      | Inr (dat, sha1Bytes) \<Rightarrow>
          (fst (IndexDat ops dat sha1Bytes b), pw\<lparr>romBatch := Some (snd (IndexDat ops dat sha1Bytes b))\<rparr>,
           [EvParse filePath, EvIndexDat filePath]))"
  using assms by (simp add: Process_def split: sum.splits prod.splits)

lemma Process_above_fail:
  assumes "romBatch pw = Some b" and "MaxBatchSize \<le> sint (Size ops b)" and "Flush ops b = (Some e, b1)"
  shows "Process ops Parse pw filePath fsize = (Some (FailedToFlush e), pw\<lparr>romBatch := Some b1\<rparr>, [EvFlush])"
  using assms by (simp add: Process_def)

lemma Process_above_ok:
  assumes "romBatch pw = Some b" and "MaxBatchSize \<le> sint (Size ops b)" and "Flush ops b = (None, b1)"
  shows "Process ops Parse pw filePath fsize =
     (case Parse filePath of
        Inl e \<Rightarrow> (Some e, pw\<lparr>romBatch := Some b1\<rparr>, [EvFlush, EvParse filePath])
      | Inr (dat, sha1Bytes) \<Rightarrow>
          (fst (IndexDat ops dat sha1Bytes b1), pw\<lparr>romBatch := Some (snd (IndexDat ops dat sha1Bytes b1))\<rparr>,
           [EvFlush, EvParse filePath, EvIndexDat filePath]))"
  using assms by (simp add: Process_def split: sum.splits prod.splits)

text \<open>
  C5. Whenever \<open>Process\<close> is called on a worker whose batch reports a size at or
  above \<open>MaxBatchSize = 10485760\<close>, the first call it issues is \<open>Flush\<close>, once, before
  the file is parsed or indexed; should the flush fail, nothing else is issued and the
  error is wrapped. When the size is below the threshold no flush is issued and the first
  call is the parse. In both cases \<open>Close\<close> is never issued and the worker keeps its
  batch.
\<close>

theorem Process_flush_threshold:
  assumes "romBatch pw = Some b"
  shows "\<exists>err pw' evs. Process ops Parse pw filePath fsize = (err, pw', evs) \<and>
           romBatch pw' \<noteq> None \<and> EvClose \<notin> set evs \<and>
           (MaxBatchSize \<le> sint (Size ops b) \<longrightarrow>
              (\<exists>rest. evs = EvFlush # rest \<and> EvFlush \<notin> set rest \<and>
                 (fst (Flush ops b) \<noteq> None \<longrightarrow>
                    rest = [] \<and> err = Some (FailedToFlush (the (fst (Flush ops b)))) \<and>
                    romBatch pw' = Some (snd (Flush ops b))))) \<and>
           (sint (Size ops b) < MaxBatchSize \<longrightarrow> EvFlush \<notin> set evs \<and> hd evs = EvParse filePath)"
proof (cases "MaxBatchSize \<le> sint (Size ops b)")
  case True
  obtain e b1 where fl: "Flush ops b = (e, b1)" by (cases "Flush ops b")
  show ?thesis
  proof (cases e)
    case None
    with assms True fl show ?thesis
      by (auto simp: Process_above_ok split: sum.splits prod.splits)
  next
    case (Some x)
    with assms True fl show ?thesis
      by (simp add: Process_above_fail)
  qed
next
  case False
  then have "sint (Size ops b) < MaxBatchSize" by simp
  with assms show ?thesis
    by (auto simp: Process_below split: sum.splits prod.splits)
qed

theorem Process_flush_threshold_witness:
  "Process exBatch exParse \<lparr>romBatch = Some (10485760, 0)\<rparr> ''a.dat'' 7 =
     (None, \<lparr>romBatch = Some (100, 1)\<rparr>, [EvFlush, EvParse ''a.dat'', EvIndexDat ''a.dat'']) \<and>
   Process exBatch exParse \<lparr>romBatch = Some (10485759, 0)\<rparr> ''a.dat'' 7 =
     (None, \<lparr>romBatch = Some (10485859, 0)\<rparr>, [EvParse ''a.dat'', EvIndexDat ''a.dat'']) \<and>
   Process exBatch exParse \<lparr>romBatch = Some (10485760, 2)\<rparr> ''a.dat'' 7 =
     (Some (FailedToFlush (ExternalError ''disk full'')), \<lparr>romBatch = Some (10485760, 2)\<rparr>, [EvFlush])"
  using Process_flush_threshold [of "\<lparr>romBatch = Some (10485760, 0)\<rparr>" "(10485760, 0)" exBatch exParse "''a.dat''" 7]
    Process_flush_threshold [of "\<lparr>romBatch = Some (10485759, 0)\<rparr>" "(10485759, 0)" exBatch exParse "''a.dat''" 7]
    Process_flush_threshold [of "\<lparr>romBatch = Some (10485760, 2)\<rparr>" "(10485760, 2)" exBatch exParse "''a.dat''" 7]
  by (simp add: Process_def exBatch_def exParse_def MaxBatchSize_def)

text \<open>
  C3. In every execution of \<open>Refresh\<close> the call of \<open>OrphanDats\<close> is the first call
  issued, and the scheduler runs on the database state that \<open>OrphanDats\<close> has returned,
  so every \<open>IndexDat\<close> comes later; when \<open>OrphanDats\<close> returns an error, \<open>Refresh\<close>
  returns exactly that error with an empty report, the scheduler is not started and
  nothing else is issued.
\<close>

theorem Refresh_orphans_first:
  "\<exists>res db' evs. Refresh Work rdb datsPath n tracker db = (res, db', EvOrphanDats # evs) \<and>
     (\<forall>i p. i < length (EvOrphanDats # evs) \<and> (EvOrphanDats # evs) ! i = EvIndexDat p \<longrightarrow> 0 < i) \<and>
     (\<forall>e. fst (OrphanDats rdb db) = Some e \<longrightarrow>
        res = ([], Some e) \<and> evs = [] \<and> db' = snd (OrphanDats rdb db)) \<and>
     (fst (OrphanDats rdb db) = None \<longrightarrow>
        (res, db', evs) = Work ''refresh dats'' [datsPath] \<lparr>romdb = rdb, numWorkers = n, pt = tracker\<rparr> (snd (OrphanDats rdb db)))"
proof -
  obtain err db1 where od: "OrphanDats rdb db = (err, db1)" by (cases "OrphanDats rdb db")
  show ?thesis
  proof (cases err)
    case None
    obtain res db2 evs where w: "Work ''refresh dats'' [datsPath] \<lparr>romdb = rdb, numWorkers = n, pt = tracker\<rparr> db1 = (res, db2, evs)"
      by (cases "Work ''refresh dats'' [datsPath] \<lparr>romdb = rdb, numWorkers = n, pt = tracker\<rparr> db1") auto
    have "Refresh Work rdb datsPath n tracker db = (res, db2, EvOrphanDats # evs)"
      by (simp add: Refresh_def od None w)
    moreover have "\<forall>i p. i < length (EvOrphanDats # evs) \<and> (EvOrphanDats # evs) ! i = EvIndexDat p \<longrightarrow> 0 < i"
      by (auto simp: nth_Cons split: nat.splits)
    ultimately show ?thesis using od None w by auto
  next
    case (Some e)
    have "Refresh Work rdb datsPath n tracker db = (([], Some e), db1, [EvOrphanDats])"
      by (simp add: Refresh_def od Some)
    then show ?thesis using od Some by auto
  qed
qed

theorem Refresh_orphans_first_witness:
  "Refresh exWork exDB ''dats'' 4 () (3, True) =
     ((''1 file'', None), (1, True),
      [EvOrphanDats, EvStartBatch, EvParse ''a.dat'', EvIndexDat ''a.dat'', EvClose, EvFlushDB]) \<and>
   Refresh exWork exDB ''dats'' 4 () (3, False) =
     (([], Some (ExternalError ''db closed'')), (3, False), [EvOrphanDats])"
  using Refresh_orphans_first [of exWork exDB "''dats''" 4 "()" "(3, True)"]
    Refresh_orphans_first [of exWork exDB "''dats''" 4 "()" "(3, False)"]
  by (simp add: Refresh_def exDB_def exWork_def)

section \<open>Properties of the depot persistence\<close>

lemma Join_inject: "Join dir a = Join dir b \<longleftrightarrow> a = b"
  by (simp add: Join_def)

lemma Rename_new: "oldp \<noteq> newp \<Longrightarrow> Rename fs oldp newp newp = fs oldp"
  by (simp add: Rename_def)

lemma Rename_old: "Rename fs oldp newp oldp = None"
  by (simp add: Rename_def)

lemma writeStates_elem:
  "s \<in> set (writeStates fs p bs n) \<Longrightarrow> \<exists>k\<le>n. s = fs(p \<mapsto> take k bs)"
proof -
  assume "s \<in> set (writeStates fs p bs n)"
  then obtain k where "k < Suc n" and "s = fs(p \<mapsto> take k bs)"
    unfolding writeStates_def by (auto simp del: upt_Suc)
  then show ?thesis by (intro exI [of _ k]) simp
qed

lemma writeStates_last: "last (writeStates fs p bs n) = fs(p \<mapsto> take n bs)"
  by (simp add: writeStates_def)

lemma writeStates_not_Nil: "writeStates fs p bs n \<noteq> []"
  by (simp add: writeStates_def)

lemma backup_trace:
  assumes "fs (Join root pn) = Some old" and "existsErr F = None" and "renameErr F = None"
  shows "\<exists>n\<le>length (ser bfilter). \<exists>rest.
           snd (writeBloomFilterWithBackup F ser pn bn fs root bfilter) =
             fs # Rename fs (Join root pn) (Join root bn) # rest \<and>
           (rest = [] \<or> rest = writeStates (Rename fs (Join root pn) (Join root bn)) (Join root pn) (ser bfilter) n) \<and>
           (fst (writeBloomFilterWithBackup F ser pn bn fs root bfilter) = None \<longrightarrow>
              rest \<noteq> [] \<and> n = length (ser bfilter))"
proof (cases "createErr F")
  case (Some e)
  with assms show ?thesis
    by (intro exI [of _ 0]) (simp add: writeBloomFilterWithBackup_def Let_def)
next
  case None
  show ?thesis
  proof (cases "writeErr F")
    case None
    with assms \<open>createErr F = None\<close> show ?thesis
      by (intro exI [of _ "length (ser bfilter)"])
        (simp add: writeBloomFilterWithBackup_def Let_def writeStates_not_Nil)
  next
    case (Some ke)
    obtain k e where "ke = (k, e)" by (cases ke)
    with Some assms \<open>createErr F = None\<close> show ?thesis
      apply (simp add: writeBloomFilterWithBackup_def Let_def)
      apply (rule exI [of _ "min k (length (ser bfilter))"])
      apply simp
      done
  qed
qed

text \<open>
  C4. Whenever the primary filter file exists, the two file names differ, and the
  existence test and the rename succeed, the first thing \<open>writeBloomFilterWithBackup\<close>
  does to the file system is the rename: in the next state the primary name is free and
  the backup holds the old bytes. Every later state, whether the creation or the write
  fails, or the run stops in the middle of the write, still has exactly the old bytes in
  the backup file, and the primary file holds a prefix of the new filter; after a run
  without error it holds the new filter.
\<close>

theorem backup_keeps_old_filter:
  assumes "pn \<noteq> bn"
    and "fs (Join root pn) = Some old"
    and "existsErr F = None" and "renameErr F = None"
  shows "\<exists>rest. snd (writeBloomFilterWithBackup F ser pn bn fs root bfilter) =
             fs # Rename fs (Join root pn) (Join root bn) # rest \<and>
           Rename fs (Join root pn) (Join root bn) (Join root pn) = None \<and>
           (\<forall>s \<in> set (Rename fs (Join root pn) (Join root bn) # rest). s (Join root bn) = Some old) \<and>
           (\<forall>s \<in> set rest. \<exists>k\<le>length (ser bfilter). s (Join root pn) = Some (take k (ser bfilter))) \<and>
           (fst (writeBloomFilterWithBackup F ser pn bn fs root bfilter) = None \<longrightarrow>
              last (snd (writeBloomFilterWithBackup F ser pn bn fs root bfilter)) (Join root pn) = Some (ser bfilter))"
proof -
  let ?p = "Join root pn" and ?b = "Join root bn"
  let ?fs1 = "Rename fs ?p ?b"
  let ?run = "writeBloomFilterWithBackup F ser pn bn fs root bfilter"
  from assms(1) have ne: "?p \<noteq> ?b" by (simp add: Join_inject)
  have b1: "?fs1 ?b = Some old" using ne assms(2) by (simp add: Rename_new)
  have "\<exists>n\<le>length (ser bfilter). \<exists>rest. snd ?run = fs # ?fs1 # rest \<and>
           (rest = [] \<or> rest = writeStates ?fs1 ?p (ser bfilter) n) \<and>
           (fst ?run = None \<longrightarrow> rest \<noteq> [] \<and> n = length (ser bfilter))"
    using assms(2-4) by (rule backup_trace)
  then obtain n rest where n: "n \<le> length (ser bfilter)"
    and tr: "snd ?run = fs # ?fs1 # rest"
    and rest: "rest = [] \<or> rest = writeStates ?fs1 ?p (ser bfilter) n"
    and ok: "fst ?run = None \<longrightarrow> rest \<noteq> [] \<and> n = length (ser bfilter)"
    by (elim exE conjE)
  have inrest: "\<exists>k\<le>n. s = ?fs1(?p \<mapsto> take k (ser bfilter))" if "s \<in> set rest" for s
  proof -
    from rest that have "s \<in> set (writeStates ?fs1 ?p (ser bfilter) n)" by auto
    then show ?thesis by (rule writeStates_elem)
  qed
  have keep: "\<forall>s \<in> set (?fs1 # rest). s ?b = Some old"
  proof
    fix s assume "s \<in> set (?fs1 # rest)"
    then consider "s = ?fs1" | "s \<in> set rest" by auto
    then show "s ?b = Some old"
    proof cases
      case 1
      then show ?thesis by (simp only: b1)
    next
      case 2
      then obtain k where "s = ?fs1(?p \<mapsto> take k (ser bfilter))" using inrest by blast
      then have "s ?b = ?fs1 ?b" using ne by simp
      then show ?thesis by (simp only: b1)
    qed
  qed
  have prim: "\<forall>s \<in> set rest. \<exists>k\<le>length (ser bfilter). s ?p = Some (take k (ser bfilter))"
  proof
    fix s assume "s \<in> set rest"
    then obtain k where "k \<le> n" and "s = ?fs1(?p \<mapsto> take k (ser bfilter))" using inrest by blast
    then show "\<exists>k\<le>length (ser bfilter). s ?p = Some (take k (ser bfilter))"
      using n by (intro exI [of _ k]) simp
  qed
  have fin: "fst ?run = None \<longrightarrow> last (snd ?run) ?p = Some (ser bfilter)"
  proof
    assume "fst ?run = None"
    with ok rest have r: "rest = writeStates ?fs1 ?p (ser bfilter) (length (ser bfilter))" and "rest \<noteq> []"
      by auto
    then have "last (snd ?run) = last rest" unfolding tr by simp
    then show "last (snd ?run) ?p = Some (ser bfilter)"
      by (simp add: r writeStates_last)
  qed
  have gone: "?fs1 ?p = None" by (rule Rename_old)
  show ?thesis
    using tr gone keep prim fin by (intro exI [of _ rest] conjI)
qed


theorem backup_keeps_old_filter_witness:
  "exFs (Join ''/depot'' ''bloom'') = Some [1, 2, 3] \<and>
   fst (writeBloomFilterWithBackup (noFaults\<lparr>writeErr := Some (1, ExternalError ''no space'')\<rparr>)
          id ''bloom'' ''bloom.bak'' exFs ''/depot'' [7, 8, 9]) = Some (ExternalError ''no space'') \<and>
   last (snd (writeBloomFilterWithBackup (noFaults\<lparr>writeErr := Some (1, ExternalError ''no space'')\<rparr>)
          id ''bloom'' ''bloom.bak'' exFs ''/depot'' [7, 8, 9])) ''/depot/bloom.bak'' = Some [1, 2, 3] \<and>
   last (snd (writeBloomFilterWithBackup (noFaults\<lparr>writeErr := Some (1, ExternalError ''no space'')\<rparr>)
          id ''bloom'' ''bloom.bak'' exFs ''/depot'' [7, 8, 9])) ''/depot/bloom'' = Some [7]"
  using backup_keeps_old_filter [of "''bloom''" "''bloom.bak''" exFs "''/depot''" "[1, 2, 3]"
      "noFaults\<lparr>writeErr := Some (1, ExternalError ''no space'')\<rparr>" id "[7, 8, 9]"]
  by (simp add: writeBloomFilterWithBackup_def noFaults_def exFs_def Join_def Rename_def writeStates_def Let_def)

section \<open>Properties of the value coercion\<close>

lemma fromHexChar_digit:
  "isHexDigit c \<Longrightarrow> fromHexChar c = Some (of_nat (hexDigitValue c))"
proof -
  assume h: "isHexDigit c"
  define n where "n = (of_char c :: nat)"
  from h have r: "(48 \<le> n \<and> n \<le> 57) \<or> (65 \<le> n \<and> n \<le> 70) \<or> (97 \<le> n \<and> n \<le> 102)"
    by (simp add: isHexDigit_def n_def Let_def)
  have v: "hexDigitValue c = (if n \<le> 57 then n - 48 else if n \<le> 70 then n - 55 else n - 87)"
    by (simp add: hexDigitValue_def n_def Let_def)
  have f: "fromHexChar c =
       (if 48 \<le> n \<and> n \<le> 57 then Some (of_nat (n - 48))
        else if 97 \<le> n \<and> n \<le> 102 then Some (of_nat (n - 97 + 10))
        else if 65 \<le> n \<and> n \<le> 70 then Some (of_nat (n - 65 + 10))
        else None)"
    by (simp add: fromHexChar_def n_def Let_def)
  from r consider "48 \<le> n \<and> n \<le> 57" | "65 \<le> n \<and> n \<le> 70" | "97 \<le> n \<and> n \<le> 102" by blast
  then show ?thesis
  proof cases
    case 1
    then show ?thesis by (simp add: v f)
  next
    case 2
    then have "n - 65 + 10 = n - 55" by arith
    with 2 show ?thesis by (simp add: v f)
  next
    case 3
    then have "n - 97 + 10 = n - 87" by arith
    with 3 show ?thesis by (simp add: v f)
  qed
qed

lemma fromHexChar_Some_iff: "fromHexChar c \<noteq> None \<longleftrightarrow> isHexDigit c"
  unfolding isHexDigit_def fromHexChar_def Let_def by auto


lemma hexDigitValue_less: "isHexDigit c \<Longrightarrow> hexDigitValue c < 16"
  by (auto simp: isHexDigit_def hexDigitValue_def Let_def)

lemma nibbles_byte:
  fixes va vb :: nat
  assumes "vb < 16"
  shows "(push_bit 4 (of_nat va) OR of_nat vb :: byte) = of_nat (16 * va + vb)"
proof -
  have t: "take_bit 4 vb = vb" using assms by (simp add: take_bit_nat_eq_self)
  have "push_bit 4 va AND take_bit 4 vb = 0"
    by (rule bit_eqI) (auto simp: bit_simps)
  then have "push_bit 4 va AND vb = 0" by (simp only: t)
  then have "push_bit 4 va + vb = push_bit 4 va OR vb" by (rule disjunctive_add_eq_or)
  then have "(of_nat (16 * va + vb) :: byte) = of_nat (push_bit 4 va OR vb)"
    by (simp add: push_bit_eq_mult mult.commute)
  also have "\<dots> = push_bit 4 (of_nat va) OR of_nat vb"
    by (simp only: of_nat_or_eq of_nat_push_bit)
  finally show ?thesis by simp
qed

lemma DecodeString_hex:
  "list_all isHexDigit s \<Longrightarrow> even (length s) \<Longrightarrow> DecodeString s = (rawBytes s, None)"
proof (induction s rule: DecodeString.induct)
  case 1
  show ?case by simp
next
  case (2 p)
  then show ?case by simp
next
  case (3 p q rest)
  from "3.prems" have hp: "isHexDigit p" and hq: "isHexDigit q"
    and hr: "list_all isHexDigit rest" and ev: "even (length rest)" by simp_all
  have ih: "DecodeString rest = (rawBytes rest, None)"
    using "3.IH" [OF fromHexChar_digit [OF hp] fromHexChar_digit [OF hq] hr ev] .
  show ?case
    by (simp add: fromHexChar_digit [OF hp] fromHexChar_digit [OF hq] ih
        nibbles_byte [OF hexDigitValue_less [OF hq]])
qed

lemma length_rawBytes: "length (rawBytes s) = length s div 2"
  by (induction s rule: rawBytes.induct) simp_all

lemma spaceWidth_plain: "48 \<le> a \<Longrightarrow> a \<le> 102 \<Longrightarrow> spaceWidth (a # ms) = 0"
proof (cases ms)
  case Nil
  assume "48 \<le> a" "a \<le> 102"
  then show ?thesis using Nil by simp
next
  case (Cons b ms')
  assume "48 \<le> a" "a \<le> 102"
  then show ?thesis using Cons by (cases ms') simp_all
qed

lemma spaceWidthRev_plain: "48 \<le> a \<Longrightarrow> a \<le> 102 \<Longrightarrow> spaceWidthRev (a # ms) = 0"
proof (cases ms)
  case Nil
  assume "48 \<le> a" "a \<le> 102"
  then show ?thesis using Nil by simp
next
  case (Cons b ms')
  assume "48 \<le> a" "a \<le> 102"
  then show ?thesis using Cons by (cases ms') simp_all
qed

lemma isHexDigit_range: "isHexDigit c \<Longrightarrow> 48 \<le> (of_char c :: nat) \<and> (of_char c :: nat) \<le> 102"
  by (auto simp: isHexDigit_def Let_def)

lemma spaceWidth_hex: "isHexDigit c \<Longrightarrow> spaceWidth (map of_char (c # cs)) = 0"
  using isHexDigit_range [of c] by (simp add: spaceWidth_plain)

lemma spaceWidthRev_hex: "isHexDigit c \<Longrightarrow> spaceWidthRev (map of_char (c # cs)) = 0"
  using isHexDigit_range [of c] by (simp add: spaceWidthRev_plain)

lemma trimLeft_hex: "isHexDigit c \<Longrightarrow> trimLeft (c # cs) = c # cs"
  by (subst trimLeft.simps) (simp add: spaceWidth_hex del: list.map)

lemma trimRightRev_hex: "isHexDigit c \<Longrightarrow> trimRightRev (c # cs) = c # cs"
  by (subst trimRightRev.simps) (simp add: spaceWidthRev_hex del: list.map)

lemma TrimSpace_hex: "list_all isHexDigit s \<Longrightarrow> TrimSpace s = s"
proof (cases s rule: rev_cases)
  case Nil
  have "trimLeft [] = []" by (subst trimLeft.simps) simp
  moreover have "trimRightRev [] = []" by (subst trimRightRev.simps) simp
  ultimately show ?thesis using Nil by (simp add: TrimSpace_def)
next
  case (snoc ys y)
  assume h: "list_all isHexDigit s"
  from snoc have "s \<noteq> []" by simp
  then obtain c cs where s: "s = c # cs" by (cases s) auto
  from h s have c: "isHexDigit c" by simp
  have l: "trimLeft s = s" unfolding s using c by (rule trimLeft_hex)
  from h snoc have "isHexDigit y" by simp
  then have r: "trimRightRev (y # rev ys) = y # rev ys" by (rule trimRightRev_hex)
  have rs: "rev s = y # rev ys" using snoc by simp
  have "TrimSpace s = rev (trimRightRev (rev s))" by (simp only: TrimSpace_def l)
  also have "\<dots> = rev (rev s)" by (simp only: rs r)
  finally show ?thesis by simp
qed

lemma Repeat_zero: "Repeat ''0'' k = replicate (nat k) CHR ''0''"
  unfolding Repeat_def by (induction "nat k" arbitrary: k) (simp_all add: replicate_Suc [symmetric] del: replicate_Suc)

lemma stringValue2Bytes_hex_full:
  assumes "list_all isHexDigit s" and "s \<noteq> []" and "even n" and "int (length s) = n"
  shows "stringValue2Bytes s n = (Some (rawBytes s), None)"
proof -
  from assms(1,2) have ne: "s \<noteq> ''-''" by (auto simp: isHexDigit_def Let_def)
  from assms(3,4) have ev: "even (length s)" by auto
  have d: "DecodeString s = (rawBytes s, None)" using assms(1) ev by (rule DecodeString_hex)
  show ?thesis
    using assms(2,4) ne by (simp add: stringValue2Bytes_def TrimSpace_hex [OF assms(1)] d)
qed

lemma stringValue2Bytes_hex_short:
  assumes "list_all isHexDigit s" and "s \<noteq> []" and "even n" and "int (length s) < n"
  shows "stringValue2Bytes s n = (Some (rawBytes (replicate (nat n - length s) CHR ''0'' @ s)), None)"
proof -
  let ?pad = "replicate (nat n - length s) CHR ''0'' @ s"
  from assms(1,2) have ne: "s \<noteq> ''-''" by (auto simp: isHexDigit_def Let_def)
  have z: "isHexDigit CHR ''0''" by (simp add: isHexDigit_def)
  have hx: "list_all isHexDigit ?pad" using assms(1) z by (auto simp: list_all_iff)
  have len: "length ?pad = nat n" using assms(4) by simp
  have ev: "even (length ?pad)" unfolding len using assms(3,4) by (simp add: even_nat_iff)
  have d: "DecodeString ?pad = (rawBytes ?pad, None)" using hx ev by (rule DecodeString_hex)
  have k: "nat (n - int (length s)) = nat n - length s" by simp
  show ?thesis
    using assms(2,4) ne
    by (simp add: stringValue2Bytes_def TrimSpace_hex [OF assms(1)] Repeat_zero k d)
qed

text \<open>
  C6. For every declared length \<open>n\<close>, the inputs \<open>"-"\<close> and \<open>""\<close> give nil and no
  error. A non-empty string of hexadecimal digits whose length is the declared, even
  length decodes without error to the bytes it denotes. A non-empty string of hexadecimal
  digits shorter than the declared, even length is first padded on the left with the
  character 0 up to that length, and the result decodes without error to the bytes that
  the padded string denotes. The input \<open>"1a2b"\<close> with declared length 8 gives the bytes
  00 00 1a 2b.
\<close>

theorem stringValue2Bytes_coercion:
  "stringValue2Bytes ''-'' n = (None, None) \<and>
   stringValue2Bytes [] n = (None, None) \<and>
   (list_all isHexDigit s \<and> s \<noteq> [] \<and> even n \<and> int (length s) = n \<longrightarrow>
      stringValue2Bytes s n = (Some (rawBytes s), None)) \<and>
   (list_all isHexDigit s \<and> s \<noteq> [] \<and> even n \<and> int (length s) < n \<longrightarrow>
      length (replicate (nat n - length s) CHR ''0'' @ s) = nat n \<and>
      stringValue2Bytes s n = (Some (rawBytes (replicate (nat n - length s) CHR ''0'' @ s)), None)) \<and>
   stringValue2Bytes ''1a2b'' 8 = (Some [0x00, 0x00, 0x1a, 0x2b], None)"
proof (intro conjI impI)
  show "stringValue2Bytes ''-'' n = (None, None)" by (simp add: stringValue2Bytes_def)
  show "stringValue2Bytes [] n = (None, None)" by (simp add: stringValue2Bytes_def)
next
  assume "list_all isHexDigit s \<and> s \<noteq> [] \<and> even n \<and> int (length s) = n"
  then show "stringValue2Bytes s n = (Some (rawBytes s), None)"
    by (intro stringValue2Bytes_hex_full) simp_all
next
  assume h: "list_all isHexDigit s \<and> s \<noteq> [] \<and> even n \<and> int (length s) < n"
  then show "length (replicate (nat n - length s) CHR ''0'' @ s) = nat n" by auto
  from h show "stringValue2Bytes s n = (Some (rawBytes (replicate (nat n - length s) CHR ''0'' @ s)), None)"
    by (intro stringValue2Bytes_hex_short) simp_all
next
  have hx: "list_all isHexDigit ''1a2b''" by (simp add: isHexDigit_def)
  have "stringValue2Bytes ''1a2b'' 8 = (Some (rawBytes (replicate (nat 8 - length ''1a2b'') CHR ''0'' @ ''1a2b'')), None)"
    using hx by (intro stringValue2Bytes_hex_short) simp_all
  also have "rawBytes (replicate (nat 8 - length ''1a2b'') CHR ''0'' @ ''1a2b'') = [0x00, 0x00, 0x1a, 0x2b]"
    by code_simp
  finally show "stringValue2Bytes ''1a2b'' 8 = (Some [0x00, 0x00, 0x1a, 0x2b], None)" .
qed

theorem stringValue2Bytes_coercion_witness:
  "stringValue2Bytes ''1A2b3c4D'' 8 = (Some [0x1a, 0x2b, 0x3c, 0x4d], None) \<and>
   stringValue2Bytes ''abc'' 8 = (Some [0x00, 0x00, 0x0a, 0xbc], None)"
  using stringValue2Bytes_coercion [of 8 "''1A2b3c4D''"] stringValue2Bytes_coercion [of 8 "''abc''"]
  by (simp add: isHexDigit_def hexDigitValue_def eval_nat_numeral)

section \<open>Properties of the hash normalization\<close>

lemma fixHashes_Crc:
  "Crc (fixHashes rom) = map_option (\<lambda>c. fst (DecodeString (stringOf c))) (Crc rom)"
  by (simp add: fixHashes_def Let_def split: option.splits prod.splits)

lemma fixHashes_Md5:
  "Md5 (fixHashes rom) = map_option (\<lambda>c. fst (DecodeString (stringOf c))) (Md5 rom)"
  by (simp add: fixHashes_def Let_def split: option.splits prod.splits)

lemma fixHashes_Sha1:
  "Sha1 (fixHashes rom) = map_option (\<lambda>c. fst (DecodeString (stringOf c))) (Sha1 rom)"
  by (simp add: fixHashes_def Let_def split: option.splits prod.splits)

lemma fixHashes_others:
  "Name (fixHashes rom) = Name rom \<and> rSize (fixHashes rom) = rSize rom \<and> Rom.more (fixHashes rom) = Rom.more rom"
  by (simp add: fixHashes_def Let_def split: option.splits prod.splits)

lemma DecodeString_length: "length (fst (DecodeString s)) \<le> length s div 2"
  by (induction s rule: DecodeString.induct) (auto split: option.splits prod.splits)

lemma decode_fixpoint:
  "fst (DecodeString (stringOf v)) = v \<longleftrightarrow> v = []"
proof
  assume eq: "fst (DecodeString (stringOf v)) = v"
  have "length (fst (DecodeString (stringOf v))) \<le> length v div 2"
    using DecodeString_length [of "stringOf v"] by (simp add: stringOf_def)
  then have "length v \<le> length v div 2" by (simp only: eq)
  then have "length v = 0" by arith
  then show "v = []" by simp
next
  assume "v = []"
  then show "fst (DecodeString (stringOf v)) = v" by (simp add: stringOf_def)
qed

lemma twice_field:
  "map_option (\<lambda>c. fst (DecodeString (stringOf c))) (map_option (\<lambda>c. fst (DecodeString (stringOf c))) f)
     = map_option (\<lambda>c. fst (DecodeString (stringOf c))) f
   \<longleftrightarrow> map_option (\<lambda>c. fst (DecodeString (stringOf c))) f = None
     \<or> map_option (\<lambda>c. fst (DecodeString (stringOf c))) f = Some []"
  by (cases f) (simp_all add: decode_fixpoint)

text \<open>
  A rom whose \<open>Crc\<close> is the text \<open>1a2b3c4d\<close>: one application gives the four bytes
  1a 2b 3c 4d, a second one decodes these bytes as if they were text and leaves the empty
  slice.
\<close>

theorem fixHashes_twice_counterexample:
  "Crc (fixHashes (fixHashes (exRom ''1azz''))) \<noteq> Crc (fixHashes (exRom ''1azz''))"
  by (simp add: fixHashes_Crc exRom_def bytesOf_def stringOf_def fromHexChar_def)

text \<open>
  C7, amended. \<open>fixHashes\<close> is not idempotent. For every rom and each of the fields
  \<open>Crc\<close>, \<open>Md5\<close> and \<open>Sha1\<close>, applying \<open>fixHashes\<close> twice yields the same field as applying
  it once exactly when the field is nil or empty after the first application; a field
  that holds raw bytes after the first application is changed by a second one.
\<close>

theorem fixHashes_twice:
  "(Crc (fixHashes (fixHashes rom)) = Crc (fixHashes rom)
      \<longleftrightarrow> Crc (fixHashes rom) = None \<or> Crc (fixHashes rom) = Some []) \<and>
   (Md5 (fixHashes (fixHashes rom)) = Md5 (fixHashes rom)
      \<longleftrightarrow> Md5 (fixHashes rom) = None \<or> Md5 (fixHashes rom) = Some []) \<and>
   (Sha1 (fixHashes (fixHashes rom)) = Sha1 (fixHashes rom)
      \<longleftrightarrow> Sha1 (fixHashes rom) = None \<or> Sha1 (fixHashes rom) = Some [])"
  by (simp only: fixHashes_Crc fixHashes_Md5 fixHashes_Sha1 twice_field)

theorem fixHashes_twice_witness:
  "Sha1 (fixHashes (exRom ''zz'')) = Some [] \<and>
   Sha1 (fixHashes (fixHashes (exRom ''zz''))) = Sha1 (fixHashes (exRom ''zz'')) \<and>
   Md5 (fixHashes (exRom ''zz'')) = None \<and>
   Md5 (fixHashes (fixHashes (exRom ''zz''))) = Md5 (fixHashes (exRom ''zz''))"
  using fixHashes_twice [of "exRom ''zz''"]
  by (simp add: fixHashes_Sha1 fixHashes_Md5 exRom_def bytesOf_def stringOf_def fromHexChar_def)

section \<open>Properties of the two parsers\<close>

lemma consumeHexBytes_value:
  "ityp j = itemValue \<Longrightarrow> consumeHexBytes n (j # ts) = (stringValue2Bytes (val j) n, ts)"
  by (simp add: consumeHexBytes_def nextItem_def)

lemma romLoop_hash_error:
  assumes "(ityp i = itemMd5 \<and> n = 32) \<or> (ityp i = itemCrc \<and> n = 8) \<or> (ityp i = itemSha1 \<and> n = 40)"
    and "consumeHexBytes n ts = ((v, Some e), ts')" and "isPanic e = False"
  shows "romLoop r (i # ts) = ((None, None), ts')"
  using assms by auto

lemma gameLoop_nil_rom:
  assumes "ityp i = itemRom" and "romStmt ts = ((None, None), ts')"
  shows "gameLoop g (i # ts) = gameLoop g ts'"
  using assms by simp

lemma fixHashes_keeps_present:
  "Crc (fixHashes rom) = None \<longleftrightarrow> Crc rom = None"
  "Md5 (fixHashes rom) = None \<longleftrightarrow> Md5 rom = None"
  "Sha1 (fixHashes rom) = None \<longleftrightarrow> Sha1 rom = None"
  by (simp_all add: fixHashes_Crc fixHashes_Md5 fixHashes_Sha1)

text \<open>
  C1, on the code. The rom statement \<open>( name r sha1 1azz )\<close> of the text grammar
  returns a nil rom and no error at the malformed hash, and the game around it has no
  rom. For the rom of the XML path with the same \<open>sha1\<close> text, \<open>fixHashes\<close> keeps the
  rom, its name, its size and its other hash, decoded, but the field \<open>Sha1\<close> is not nil:
  it holds the byte decoded before the error.
\<close>

theorem malformed_sha1_text_and_xml:
  "romStmt exRomItems = ((None, None), [Item itemCloseBrace '')'']) \<and>
   gameStmt (Item itemOpenBrace ''('' # Item itemRom ''rom'' # exRomItems) =
     ((Some \<lparr>gName = [], gDescription = [], Roms = [], Disks = [], Parts = [], Regions = []\<rparr>, None), []) \<and>
   fixHashes (exRom ''1azz'') =
     \<lparr>Name = ''r'', rSize = 1, Crc = Some [0x1a, 0x2b, 0x3c, 0x4d], Md5 = None, Sha1 = Some [0x1a]\<rparr>"
  by code_simp

lemma lineCountingReaderRead_line: "line (snd (lineCountingReaderRead rd lr n)) = line lr"
  by (simp add: lineCountingReaderRead_def Let_def split: prod.splits)

lemma readUntilError_line:
  "line (snd (readUntilError (lineCountingReaderRead rd) ns lr)) = line lr"
proof (induction ns arbitrary: lr)
  case Nil
  show ?case by simp
next
  case (Cons n ns)
  obtain buf err lr1 where st: "lineCountingReaderRead rd lr n = ((buf, err), lr1)"
    by (metis prod.exhaust)
  have l1: "line lr1 = line lr" using lineCountingReaderRead_line [of rd lr n] st by simp
  show ?case
  proof (cases err)
    case (Some e)
    then show ?thesis using st l1 by simp
  next
    case None
    obtain rest err' lr2 where r: "readUntilError (lineCountingReaderRead rd) ns lr1 = ((rest, err'), lr2)"
      by (metis prod.exhaust)
    have "line lr2 = line lr1" using Cons.IH [of lr1] r by simp
    then show ?thesis using st None r l1 by simp
  qed
qed

lemma ParseXml_error_line:
  assumes "ParseXml sha1sum xmlDecode Normalize rd ns r0 = (d, s, Some (XmlParsingError l e))"
  shows "l = 0"
proof -
  let ?lr = "\<lparr>lir = \<lparr>ir = r0, h = []\<rparr>, line = 0\<rparr>"
  obtain got lr1 where run: "readUntilError (lineCountingReaderRead (hashingReaderRead rd)) ns ?lr = (got, lr1)"
    by (metis prod.exhaust)
  have "line lr1 = 0"
    using readUntilError_line [of "hashingReaderRead rd" ns ?lr] run by simp
  with assms run show ?thesis
    by (auto simp: ParseXml_def Let_def split: sum.splits)
qed

text \<open>
  C8, on the code. An XML input of three lines is read through the line-counting
  reader, two newlines have been delivered when the decoder fails, and the error that
  \<open>ParseXml\<close> returns carries the line number 0.
\<close>

theorem ParseXml_reports_line_zero:
  "length (filter (\<lambda>b. b = 10)
      (fst (fst (readUntilError sliceReader [4096, 4096] (bytesOf [CHR ''<'', CHR ''d'', CHR ''>'', CHR 10, CHR ''<'', CHR ''g'', CHR 10, CHR ''<''])))))
     = 2 \<and>
   ParseXml sha1sum (\<lambda>got. Inl (ExternalError ''XML syntax error'')) Normalize sliceReader [4096, 4096]
      (bytesOf [CHR ''<'', CHR ''d'', CHR ''>'', CHR 10, CHR ''<'', CHR ''g'', CHR 10, CHR ''<''])
     = (None, None, Some (XmlParsingError 0 (ExternalError ''XML syntax error'')))"
  by code_simp

lemma hashingReaderRead_h:
  "hashingReaderRead rd r n = ((buf, err), r1) \<Longrightarrow> h r1 = (if err = None then h r @ buf else h r)"
  by (auto simp: hashingReaderRead_def Let_def split: prod.splits)

lemma readUntilError_hashed:
  "readUntilError (hashingReaderRead rd) ns r = ((got, err), r1) \<Longrightarrow>
     \<exists>tail. h r @ got = h r1 @ tail \<and> (err = None \<longrightarrow> tail = [])"
proof (induction ns arbitrary: r got err r1)
  case Nil
  then show ?case by simp
next
  case (Cons n ns)
  obtain buf e1 r' where st: "hashingReaderRead rd r n = ((buf, e1), r')"
    by (metis prod.exhaust)
  show ?case
  proof (cases e1)
    case (Some e)
    with st Cons.prems have "got = buf" "err = Some e" "r1 = r'" by simp_all
    moreover have "h r' = h r" using hashingReaderRead_h [OF st] Some by simp
    ultimately show ?thesis by simp
  next
    case None
    obtain rest err' r2 where r: "readUntilError (hashingReaderRead rd) ns r' = ((rest, err'), r2)"
      by (metis prod.exhaust)
    with st None Cons.prems have g: "got = buf @ rest" "err = err'" "r1 = r2" by simp_all
    have h': "h r' = h r @ buf" using hashingReaderRead_h [OF st] None by simp
    from Cons.IH [OF r] obtain tail where "h r' @ rest = h r2 @ tail" and "err' = None \<longrightarrow> tail = []"
      by blast
    then show ?thesis using g h' by auto
  qed
qed

text \<open>
  C9, on the code. The same bytes, the text \<open>game ( name x )\<close>, are consumed from two
  streams and parsed into the same catalog. From the stream that answers \<open>io.EOF\<close> after
  its bytes, the digest is the SHA-1 of the bytes; from the stream that delivers the bytes
  together with \<open>io.EOF\<close>, the digest is the SHA-1 of no bytes at all.
\<close>

theorem ParseDat_digest_misses_final_read:
  "ParseDat sha1sum (\<lambda>got. exGameItems) lineNumber Normalize sliceReader [4096, 4096] (bytesOf ''game ( name x )'') fpath =
     Some (Some (Normalize \<lparr>dName = [], dDescription = [],
                   Games = [\<lparr>gName = ''x'', gDescription = [], Roms = [], Disks = [], Parts = [], Regions = []\<rparr>],
                   Software = []\<rparr>),
           Some (sha1sum (bytesOf ''game ( name x )'')), None) \<and>
   ParseDat sha1sum (\<lambda>got. exGameItems) lineNumber Normalize dataErrReader [4096] (bytesOf ''game ( name x )'') fpath =
     Some (Some (Normalize \<lparr>dName = [], dDescription = [],
                   Games = [\<lparr>gName = ''x'', gDescription = [], Roms = [], Disks = [], Parts = [], Regions = []\<rparr>],
                   Software = []\<rparr>),
           Some (sha1sum []), None) \<and>
   fst (fst (readUntilError dataErrReader [4096] (bytesOf ''game ( name x )''))) = bytesOf ''game ( name x )''"
  by code_simp

end
